theory Spec2Isabelle
  imports Complex_Main
begin

section \<open>Data model\<close>

text \<open>
  The order lifecycle of \<^verbatim>\<open>types.ts\<close> as it is used in
  \<^verbatim>\<open>OrdersScreen.tsx\<close> (the five keys of \<^verbatim>\<open>OrderStatusChip\<close>).
\<close>

datatype OrderStatus = NEW | PREPARING | READY_FOR_PICKUP | COMPLETED | REJECTED

text \<open>
  Of an order the modals read \<^verbatim>\<open>order.id\<close> and \<^verbatim>\<open>order.status\<close>
  in their logic (the field \<open>order_id\<close> is \<^verbatim>\<open>id\<close>); customer, items, total and payment method are only rendered.
\<close>

record Order =
  order_id :: string
  status :: OrderStatus

text \<open>
  One modal instance as the hooks of \<^verbatim>\<open>NewOrderModal\<close> and
  \<^verbatim>\<open>OrderDetailsModal\<close> declare it (\<^verbatim>\<open>useState\<close> and \<^verbatim>\<open>useRef\<close>
  cells, the same five in both components), together with the two things outside the
  component that its code acts on: the table of live \<^verbatim>\<open>window.setInterval\<close>
  timers and the calls made on the \<^verbatim>\<open>onUpdateStatus\<close> prop.

  \<^item> \<open>timeLeft\<close> is a JavaScript number that only ever holds integers.
  \<^item> \<open>timerIntervalRef\<close> is \<^verbatim>\<open>number | null\<close>.
  \<^item> \<open>intervals\<close> lists the live intervals in creation order; each entry is the
    handle and the order id that the interval's callback closed over.
  \<^item> \<open>nextHandle\<close> is the handle the next \<^verbatim>\<open>setInterval\<close> returns.
  \<^item> \<open>calls\<close> records \<^verbatim>\<open>onUpdateStatus(orderId, status)\<close> in call order.

  Every event (a tick of the interval, a pointer event, a click, a render with other
  props) is handled to its end on the state the event before it left: JavaScript runs
  one callback at a time, and React commits the state updates of an event, and runs the
  effects that follow from them, before the next event is delivered.
\<close>

record modal =
  timeLeft :: int
  timerIntervalRef :: "nat option"
  isSwiping :: bool
  swipeStartX :: int
  swipeDeltaRef :: int
  intervals :: "(nat \<times> string) list"
  nextHandle :: nat
  calls :: "(string \<times> OrderStatus) list"

section \<open>The countdown timer\<close>

text \<open>\<^verbatim>\<open>clearInterval(h)\<close>: the interval with handle \<open>h\<close> leaves the table.\<close>

definition clearInterval :: "nat \<Rightarrow> 'a modal_scheme \<Rightarrow> 'a modal_scheme" where
  "clearInterval h m = m\<lparr>intervals := filter (\<lambda>(i, c). i \<noteq> h) (intervals m)\<rparr>"

text \<open>
  \<^verbatim>\<open>window.setInterval(callback, 100)\<close>: a new interval, whose callback closed over
  the order id \<open>c\<close>, enters the table; the result is its handle and the new state.
\<close>

definition setInterval :: "string \<Rightarrow> 'a modal_scheme \<Rightarrow> nat \<times> 'a modal_scheme" where
  "setInterval c m =
     (nextHandle m,
      m\<lparr>intervals := intervals m @ [(nextHandle m, c)], nextHandle := Suc (nextHandle m)\<rparr>)"

text \<open>
  JavaScript truthiness of \<^verbatim>\<open>timerIntervalRef.current\<close>: \<^verbatim>\<open>null\<close> and
  \<^verbatim>\<open>0\<close> are falsy.
\<close>

definition truthy :: "nat option \<Rightarrow> bool" where
  "truthy r = (case r of None \<Rightarrow> False | Some h \<Rightarrow> h \<noteq> 0)"

text \<open>
  The body of the timer effect once its guard holds (lines 31-44 of
  \<^verbatim>\<open>NewOrderModal\<close>, 230-243 of \<^verbatim>\<open>OrderDetailsModal\<close>):
  \<^verbatim>\<open>setTimeLeft(D); if (timerIntervalRef.current) clearInterval(timerIntervalRef.current);
  timerIntervalRef.current = window.setInterval(..., 100)\<close>.
  The two components differ in the constant \<open>D\<close> only (600 and 150).
\<close>

definition startCountdown :: "int \<Rightarrow> string \<Rightarrow> 'a modal_scheme \<Rightarrow> 'a modal_scheme" where
  "startCountdown D oid m =
     (let m1 = m\<lparr>timeLeft := D\<rparr>;
          m2 = (if truthy (timerIntervalRef m1)
                then clearInterval (the (timerIntervalRef m1)) m1 else m1);
          (h, m3) = setInterval oid m2
      in m3\<lparr>timerIntervalRef := Some h\<rparr>)"

text \<open>
  The cleanup the timer effect returns (lines 47-51 and 247-251):
  \<^verbatim>\<open>if (timerIntervalRef.current) clearInterval(timerIntervalRef.current)\<close>.
  React runs it before the effect runs again and when the component unmounts.
\<close>

definition timerCleanup :: "'a modal_scheme \<Rightarrow> 'a modal_scheme" where
  "timerCleanup m =
     (if truthy (timerIntervalRef m) then clearInterval (the (timerIntervalRef m)) m else m)"

text \<open>
  The interval callback (lines 35-44 and 234-243):
  \<^verbatim>\<open>setTimeLeft(prev => { if (prev <= 1) { clearInterval(timerIntervalRef.current!);
  onUpdateStatus(order.id, REJECTED); return 0; } return prev - 1; })\<close>.
  \<^verbatim>\<open>clearInterval(null)\<close> clears nothing. In \<^verbatim>\<open>NewOrderModal\<close> the call goes
  through \<^verbatim>\<open>handleCloseAndReject\<close>, whose \<^verbatim>\<open>order\<close> is the one the effect's guard
  found present. The updater is taken to run once for each tick.
\<close>

definition intervalCallback ::
  "(string \<Rightarrow> OrderStatus \<Rightarrow> 'a modal_scheme \<Rightarrow> 'a modal_scheme) \<Rightarrow> string \<Rightarrow>
   'a modal_scheme \<Rightarrow> 'a modal_scheme" where
  "intervalCallback onUpdateStatus oid m =
     (if timeLeft m \<le> 1 then
        let m1 = (case timerIntervalRef m of None \<Rightarrow> m | Some h \<Rightarrow> clearInterval h m);
            m2 = onUpdateStatus oid REJECTED m1
        in m2\<lparr>timeLeft := 0\<rparr>
      else m\<lparr>timeLeft := timeLeft m - 1\<rparr>)"

text \<open>
  The browser fires the interval with handle \<open>h\<close>: its callback runs if the interval
  is still in the table, and nothing happens otherwise (a cleared interval never fires).
\<close>

definition fire ::
  "(string \<Rightarrow> OrderStatus \<Rightarrow> 'a modal_scheme \<Rightarrow> 'a modal_scheme) \<Rightarrow> nat \<Rightarrow>
   'a modal_scheme \<Rightarrow> 'a modal_scheme" where
  "fire onUpdateStatus h m =
     (case map_of (intervals m) h of
        None \<Rightarrow> m
      | Some oid \<Rightarrow> intervalCallback onUpdateStatus oid m)"

text \<open>
  One tick interval (100 ms) passes: every interval that was live at its start fires
  once, in creation order, unless an earlier callback of the same round cleared it.
\<close>

definition elapse ::
  "(string \<Rightarrow> OrderStatus \<Rightarrow> 'a modal_scheme \<Rightarrow> 'a modal_scheme) \<Rightarrow>
   'a modal_scheme \<Rightarrow> 'a modal_scheme" where
  "elapse onUpdateStatus m = fold (fire onUpdateStatus) (map fst (intervals m)) m"

text \<open>
  The \<^verbatim>\<open>onUpdateStatus\<close> prop of \<^verbatim>\<open>NewOrderModal\<close> is supplied by the
  application shell, which is outside the component: here it records the request.
\<close>

definition recordCall :: "string \<Rightarrow> OrderStatus \<Rightarrow> 'a modal_scheme \<Rightarrow> 'a modal_scheme" where
  "recordCall orderId st m = m\<lparr>calls := calls m @ [(orderId, st)]\<rparr>"

section \<open>The swipe gesture\<close>

text \<open>
  Pointer coordinates (\<^verbatim>\<open>clientX\<close>) are whole CSS pixels, \<open>int\<close>; the widths
  \<^verbatim>\<open>offsetWidth\<close> are non-negative integers by the DOM, \<open>nat\<close>. On integers of this
  size JavaScript's number subtraction, \<^verbatim>\<open>Math.min\<close> and \<^verbatim>\<open>Math.max\<close> are exact.
  Only \<^verbatim>\<open>sliderWidth * 0.7\<close> is not: it is a multiplication of IEEE 754 doubles.
  The literal \<^verbatim>\<open>0.7\<close> denotes the double \<open>6305039478318694 / 2^53\<close>
  (\<^verbatim>\<open>0x3FE6666666666666\<close>), and the product of an integer with it is rounded to
  53 significant bits, to nearest, ties to even.
\<close>

fun bit_length :: "nat \<Rightarrow> nat" where
  "bit_length n = (if n = 0 then 0 else Suc (bit_length (n div 2)))"

declare bit_length.simps [simp del]

text \<open>
  Rounding of a natural number to 53 significant bits, to nearest, ties to even. With
  \<open>s\<close> the number of bits beyond 53, the result is a multiple of \<open>2^s\<close>.
\<close>

definition round_to_53_bits :: "nat \<Rightarrow> nat" where
  "round_to_53_bits n =
     (let s = bit_length n - 53; q = n div 2 ^ s; r = n mod 2 ^ s
      in if 2 * r < 2 ^ s \<or> (2 * r = 2 ^ s \<and> even q) then q * 2 ^ s else (q + 1) * 2 ^ s)"

text \<open>
  \<^verbatim>\<open>const acceptanceThreshold = sliderWidth * 0.7\<close> (lines 73 and 272): the double
  nearest to \<open>sliderWidth * 6305039478318694 / 2^53\<close>.
\<close>

definition acceptanceThreshold :: "nat \<Rightarrow> rat" where
  "acceptanceThreshold sliderWidth =
     of_nat (round_to_53_bits (sliderWidth * 6305039478318694)) / 2 ^ 53"

text \<open>
  \<^verbatim>\<open>handleSwipeStart\<close> after its guard (lines 60-65 and 260-265):
  \<^verbatim>\<open>setSwipeStartX(getClientX(e)); setIsSwiping(true)\<close>. The stored offset
  \<^verbatim>\<open>swipeDeltaRef.current\<close> is not touched. \<open>clientX\<close> is what
  \<^verbatim>\<open>getClientX\<close> reads from the mouse or touch event. Writes to the handle's style
  are presentation and are left out.
\<close>

definition handleSwipeStart :: "int \<Rightarrow> 'a modal_scheme \<Rightarrow> 'a modal_scheme" where
  "handleSwipeStart clientX m = m\<lparr>swipeStartX := clientX, isSwiping := True\<rparr>"

text \<open>
  \<^verbatim>\<open>handleSwipeMove\<close> (lines 86-100 and 285-299, the same text in both components).
  \<open>sliderRef\<close> and \<open>handleRef\<close> are the \<^verbatim>\<open>offsetWidth\<close> of the elements the
  refs point to, \<open>None\<close> when the element is not rendered.
\<close>

definition handleSwipeMove ::
  "nat option \<Rightarrow> nat option \<Rightarrow> int \<Rightarrow> 'a modal_scheme \<Rightarrow> 'a modal_scheme" where
  "handleSwipeMove sliderRef handleRef currentX m =
     (if \<not> isSwiping m then m
      else
        let delta = currentX - swipeStartX m
        in case (sliderRef, handleRef) of
             (Some sliderWidth, Some handleWidth) \<Rightarrow>
               let maxSwipe = int sliderWidth - int handleWidth;
                   delta = max 0 (min delta maxSwipe)
               in m\<lparr>swipeDeltaRef := delta\<rparr>
           | _ \<Rightarrow> m)"

text \<open>
  \<^verbatim>\<open>handleSwipeEnd\<close> from \<^verbatim>\<open>if (!isSwiping) return\<close> on (lines 69-83 and 269-282);
  \<open>oid\<close> is \<^verbatim>\<open>order.id\<close>.
\<close>

definition handleSwipeEnd ::
  "(string \<Rightarrow> OrderStatus \<Rightarrow> 'a modal_scheme \<Rightarrow> 'a modal_scheme) \<Rightarrow> nat option \<Rightarrow> string \<Rightarrow>
   'a modal_scheme \<Rightarrow> 'a modal_scheme" where
  "handleSwipeEnd onUpdateStatus sliderRef oid m =
     (if \<not> isSwiping m then m
      else
        let m1 = m\<lparr>isSwiping := False\<rparr>
        in case sliderRef of
             None \<Rightarrow> m1
           | Some sliderWidth \<Rightarrow>
               if of_int (swipeDeltaRef m1) > acceptanceThreshold sliderWidth
               then onUpdateStatus oid PREPARING m1
               else m1)"

section \<open>NewOrderModal\<close>

text \<open>
  The component with its props \<^verbatim>\<open>isOpen\<close> and \<^verbatim>\<open>order: Order | null\<close>. Its
  parent, which supplies the props and \<^verbatim>\<open>onUpdateStatus\<close>, is not part of the
  component: a change of the props arrives as an event.
\<close>

record newOrderModal = modal +
  isOpen :: bool
  order :: "Order option"

text \<open>\<^verbatim>\<open>handleCloseAndReject\<close> (lines 23-27).\<close>

definition handleCloseAndReject :: "newOrderModal \<Rightarrow> newOrderModal" where
  "handleCloseAndReject m =
     (case order m of None \<Rightarrow> m | Some ord \<Rightarrow> recordCall (order_id ord) REJECTED m)"

text \<open>The timer effect body (lines 30-45): the guard \<^verbatim>\<open>isOpen && order\<close>, 600 ticks.\<close>

definition NewOrderModal_timerEffect :: "newOrderModal \<Rightarrow> newOrderModal" where
  "NewOrderModal_timerEffect m =
     (case order m of
        None \<Rightarrow> m
      | Some ord \<Rightarrow> if isOpen m then startCountdown 600 (order_id ord) m else m)"

text \<open>
  The first render on a fresh page: the initial values of the hooks (lines 13-19), no
  live interval, and the effect has run. Handles of \<^verbatim>\<open>setInterval\<close> are positive.
\<close>

definition NewOrderModal_mount :: "bool \<Rightarrow> Order option \<Rightarrow> newOrderModal" where
  "NewOrderModal_mount openProp ord =
     NewOrderModal_timerEffect
       \<lparr>timeLeft = 600, timerIntervalRef = None, isSwiping = False, swipeStartX = 0,
        swipeDeltaRef = 0, intervals = [], nextHandle = 1, calls = [],
        isOpen = openProp, order = ord\<rparr>"

text \<open>
  The modal renders its markup, and with it the slider and the handle, only when
  \<^verbatim>\<open>isOpen && order\<close> (line 118); otherwise both refs are \<^verbatim>\<open>null\<close>.
\<close>

definition NewOrderModal_rendered :: "newOrderModal \<Rightarrow> bool" where
  "NewOrderModal_rendered m \<longleftrightarrow> isOpen m \<and> order m \<noteq> None"

datatype modal_event =
    Elapse
  | SwipeStart int
  | SwipeMove int
  | SwipeEnd
  | BackdropClick
  | SetProps bool "Order option"

text \<open>
  One event on the component; \<open>sliderWidth\<close> and \<open>handleWidth\<close> are the widths of the
  two elements while they are rendered.
  \<^item> \<open>Elapse\<close>: 100 ms pass.
  \<^item> \<open>SwipeStart\<close>: mouse down or touch start on the handle (there is one only when
    rendered); the guard \<^verbatim>\<open>if (!order) return\<close> of line 59.
  \<^item> \<open>SwipeMove\<close>, \<open>SwipeEnd\<close>: the window listeners of lines 102-116, with the guard
    \<^verbatim>\<open>if (!isSwiping || !order) return\<close> of line 69.
  \<^item> \<open>BackdropClick\<close>: \<^verbatim>\<open>onClick={handleCloseAndReject}\<close> of line 126.
  \<^item> \<open>SetProps\<close>: the parent renders the modal with other props; React runs the
    cleanup of the timer effect and then the effect again (dependencies of line 52).
\<close>

definition NewOrderModal_step :: "nat \<Rightarrow> nat \<Rightarrow> modal_event \<Rightarrow> newOrderModal \<Rightarrow> newOrderModal" where
  "NewOrderModal_step sliderWidth handleWidth e m =
     (let sliderRef = (if NewOrderModal_rendered m then Some sliderWidth else None);
          handleRef = (if NewOrderModal_rendered m then Some handleWidth else None)
      in case e of
           Elapse \<Rightarrow> elapse recordCall m
         | SwipeStart clientX \<Rightarrow>
             (if NewOrderModal_rendered m
              then (case order m of None \<Rightarrow> m | Some ord \<Rightarrow> handleSwipeStart clientX m)
              else m)
         | SwipeMove clientX \<Rightarrow> handleSwipeMove sliderRef handleRef clientX m
         | SwipeEnd \<Rightarrow>
             (case order m of
                None \<Rightarrow> m
              | Some ord \<Rightarrow> handleSwipeEnd recordCall sliderRef (order_id ord) m)
         | BackdropClick \<Rightarrow> (if NewOrderModal_rendered m then handleCloseAndReject m else m)
         | SetProps openProp ord \<Rightarrow>
             NewOrderModal_timerEffect ((timerCleanup m)\<lparr>isOpen := openProp, order := ord\<rparr>))"

definition NewOrderModal_run ::
  "nat \<Rightarrow> nat \<Rightarrow> modal_event list \<Rightarrow> newOrderModal \<Rightarrow> newOrderModal" where
  "NewOrderModal_run sliderWidth handleWidth es m =
     fold (NewOrderModal_step sliderWidth handleWidth) es m"

section \<open>OrdersScreen with OrderDetailsModal\<close>

text \<open>
  \<^verbatim>\<open>OrdersScreen\<close> holds \<^verbatim>\<open>selectedOrder\<close> and renders \<^verbatim>\<open>OrderDetailsModal\<close>
  exactly while it is not null (lines 156-163), with \<^verbatim>\<open>isOpen = true\<close>. \<open>mounted\<close>
  says whether a modal instance exists; the \<open>modal\<close> fields are its hooks.
\<close>

record ordersScreen = modal +
  selectedOrder :: "Order option"
  mounted :: bool

text \<open>
  \<^verbatim>\<open>handleUpdateStatus\<close> (lines 95-98):
  \<^verbatim>\<open>onUpdateStatus(orderId, status); setSelectedOrder(null)\<close>.
\<close>

definition handleUpdateStatus :: "string \<Rightarrow> OrderStatus \<Rightarrow> ordersScreen \<Rightarrow> ordersScreen" where
  "handleUpdateStatus orderId st s =
     s\<lparr>calls := calls s @ [(orderId, st)], selectedOrder := None\<rparr>"

text \<open>
  The timer effect body of \<^verbatim>\<open>OrderDetailsModal\<close> (lines 229-244): the guard
  \<^verbatim>\<open>isOpen && order.status === OrderStatus.NEW\<close>, 150 ticks.
\<close>

definition OrderDetailsModal_timerEffect :: "Order \<Rightarrow> ordersScreen \<Rightarrow> ordersScreen" where
  "OrderDetailsModal_timerEffect ord s =
     (if status ord = NEW then startCountdown 150 (order_id ord) s else s)"

text \<open>
  \<^verbatim>\<open>setSelectedOrder(order)\<close> of an order card (line 138) and the render that follows.
  Without a modal instance one is mounted: fresh hooks (lines 216-225), then the effect.
  With one, its props change: cleanup, then the effect.
\<close>

definition OrdersScreen_select :: "Order \<Rightarrow> ordersScreen \<Rightarrow> ordersScreen" where
  "OrdersScreen_select ord s =
     (if mounted s
      then OrderDetailsModal_timerEffect ord ((timerCleanup s)\<lparr>selectedOrder := Some ord\<rparr>)
      else OrderDetailsModal_timerEffect ord
             (s\<lparr>timeLeft := 150, timerIntervalRef := None, isSwiping := False,
                swipeStartX := 0, swipeDeltaRef := 0,
                selectedOrder := Some ord, mounted := True\<rparr>))"

text \<open>
  The render after an event: with \<^verbatim>\<open>selectedOrder\<close> null the modal is no longer
  rendered, so React unmounts the instance and runs the cleanup of its effects.
\<close>

definition OrdersScreen_render :: "ordersScreen \<Rightarrow> ordersScreen" where
  "OrdersScreen_render s =
     (if selectedOrder s = None \<and> mounted s then (timerCleanup s)\<lparr>mounted := False\<rparr> else s)"

datatype screen_event =
    Tick
  | OrderCardClick Order
  | CloseClick
  | MouseDown int
  | MouseMove int
  | MouseUp
  | ReadyForPickupClick
  | MarkCompletedClick
  | ParentRender

text \<open>
  One event on the screen, followed by the render.
  \<^item> \<open>Tick\<close>: 100 ms pass.
  \<^item> \<open>CloseClick\<close>: the backdrop or the close button, \<^verbatim>\<open>onClose\<close> (lines 372, 396).
  \<^item> \<open>MouseDown\<close>: on the handle, which \<^verbatim>\<open>ActionButtons\<close> renders for a \<^verbatim>\<open>NEW\<close>
    order only; the guard of line 259.
  \<^item> \<open>MouseMove\<close>, \<open>MouseUp\<close>: the window listeners of lines 301-315.
  \<^item> \<open>ReadyForPickupClick\<close>, \<open>MarkCompletedClick\<close>: the buttons of lines 346-362, rendered
    for a \<^verbatim>\<open>PREPARING\<close> and a \<^verbatim>\<open>READY_FOR_PICKUP\<close> order.
  \<^item> \<open>ParentRender\<close>: the screen renders again for a reason of its own; the modal then
    gets a new \<^verbatim>\<open>handleUpdateStatus\<close> function, a dependency of its timer effect
    (line 252): cleanup, then the effect.
  An event for the modal does nothing while no modal is mounted.
\<close>

definition OrderDetailsModal_step ::
  "nat \<Rightarrow> nat \<Rightarrow> screen_event \<Rightarrow> Order \<Rightarrow> ordersScreen \<Rightarrow> ordersScreen" where
  "OrderDetailsModal_step sliderWidth handleWidth e ord s =
     (let sliderRef = (if status ord = NEW then Some sliderWidth else None);
          handleRef = (if status ord = NEW then Some handleWidth else None)
      in (case e of
            CloseClick \<Rightarrow> s\<lparr>selectedOrder := None\<rparr>
          | MouseDown clientX \<Rightarrow>
              (if status ord \<noteq> NEW then s else handleSwipeStart clientX s)
          | MouseMove clientX \<Rightarrow> handleSwipeMove sliderRef handleRef clientX s
          | MouseUp \<Rightarrow> handleSwipeEnd handleUpdateStatus sliderRef (order_id ord) s
          | ReadyForPickupClick \<Rightarrow>
              (if status ord = PREPARING
               then handleUpdateStatus (order_id ord) READY_FOR_PICKUP s else s)
          | MarkCompletedClick \<Rightarrow>
              (if status ord = READY_FOR_PICKUP
               then handleUpdateStatus (order_id ord) COMPLETED s else s)
          | ParentRender \<Rightarrow> OrderDetailsModal_timerEffect ord (timerCleanup s)
          | Tick \<Rightarrow> s
          | OrderCardClick other \<Rightarrow> s))"

definition OrdersScreen_step :: "nat \<Rightarrow> nat \<Rightarrow> screen_event \<Rightarrow> ordersScreen \<Rightarrow> ordersScreen" where
  "OrdersScreen_step sliderWidth handleWidth e s =
     OrdersScreen_render
       (case e of
          Tick \<Rightarrow> elapse handleUpdateStatus s
        | OrderCardClick ord \<Rightarrow> OrdersScreen_select ord s
        | _ \<Rightarrow>
            (case selectedOrder s of
               None \<Rightarrow> s
             | Some ord \<Rightarrow>
                 (if mounted s then OrderDetailsModal_step sliderWidth handleWidth e ord s
                  else s)))"

definition OrdersScreen_run ::
  "nat \<Rightarrow> nat \<Rightarrow> screen_event list \<Rightarrow> ordersScreen \<Rightarrow> ordersScreen" where
  "OrdersScreen_run sliderWidth handleWidth es s =
     fold (OrdersScreen_step sliderWidth handleWidth) es s"

text \<open>The screen on a fresh page: no order selected, no modal, no interval.\<close>

definition OrdersScreen_init :: ordersScreen where
  "OrdersScreen_init =
     \<lparr>timeLeft = 150, timerIntervalRef = None, isSwiping = False, swipeStartX = 0,
      swipeDeltaRef = 0, intervals = [], nextHandle = 1, calls = [],
      selectedOrder = None, mounted = False\<rparr>"

section \<open>The order status state machine\<close>

text \<open>
  Modelled from the spec: the function behind \<^verbatim>\<open>onUpdateStatus\<close> that validates a
  requested transition and updates the order belongs to the application shell and its
  order store, which are not among the sources; \<^verbatim>\<open>handleUpdateStatus\<close> and the
  modals only pass the request on. Section 4.4 of the specification: given the current
  status and a requested target, it returns the new status if the edge is legal and
  signals an invalid-transition error without side effects otherwise. The legal edges
  are those of section 4.3.
\<close>

datatype transition_error = InvalidTransition

fun legal_edge :: "OrderStatus \<Rightarrow> OrderStatus \<Rightarrow> bool" where
  "legal_edge NEW PREPARING = True"
| "legal_edge NEW REJECTED = True"
| "legal_edge PREPARING READY_FOR_PICKUP = True"
| "legal_edge READY_FOR_PICKUP COMPLETED = True"
| "legal_edge _ _ = False"

definition transition :: "OrderStatus \<Rightarrow> OrderStatus \<Rightarrow> transition_error + OrderStatus" where
  "transition current target = (if legal_edge current target then Inr target else Inl InvalidTransition)"

text \<open>
  Modelled from the spec: \<^verbatim>\<open>requestStatusTransition\<close> of section 6 on one order of
  the store; the result is the answer and the order as the store holds it afterwards.
\<close>

definition requestStatusTransition ::
  "Order \<Rightarrow> OrderStatus \<Rightarrow> (transition_error + unit) \<times> Order" where
  "requestStatusTransition ord target =
     (case transition (status ord) target of
        Inl err \<Rightarrow> (Inl err, ord)
      | Inr new \<Rightarrow> (Inr (), ord\<lparr>status := new\<rparr>))"

section \<open>Notions used in the statements\<close>

text \<open>
  A countdown is running: the table of live intervals holds exactly the interval the
  ref points to, and its handle is a positive number, as \<^verbatim>\<open>setInterval\<close> returns.
\<close>

definition running :: "nat \<Rightarrow> string \<Rightarrow> 'a modal_scheme \<Rightarrow> bool" where
  "running h oid m \<longleftrightarrow>
     intervals m = [(h, oid)] \<and> timerIntervalRef m = Some h \<and> h \<noteq> 0"

text \<open>
  What the timer code relies on from its \<^verbatim>\<open>onUpdateStatus\<close> prop: the call is
  recorded, and the prop does not itself write the hooks of the modal or the interval
  table. \<open>recordCall\<close> and \<^verbatim>\<open>handleUpdateStatus\<close> of the screen are such props.
\<close>

definition reportsOnly ::
  "(string \<Rightarrow> OrderStatus \<Rightarrow> 'a modal_scheme \<Rightarrow> 'a modal_scheme) \<Rightarrow> bool" where
  "reportsOnly f \<longleftrightarrow>
     (\<forall>oid st m.
        calls (f oid st m) = calls m @ [(oid, st)] \<and>
        intervals (f oid st m) = intervals m \<and>
        nextHandle (f oid st m) = nextHandle m \<and>
        timerIntervalRef (f oid st m) = timerIntervalRef m \<and>
        timeLeft (f oid st m) = timeLeft m \<and>
        isSwiping (f oid st m) = isSwiping m \<and>
        swipeStartX (f oid st m) = swipeStartX m \<and>
        swipeDeltaRef (f oid st m) = swipeDeltaRef m)"

text \<open>
  An event of the screen that opens a decision window: a click on an order card.
\<close>

definition opensWindow :: "screen_event \<Rightarrow> bool" where
  "opensWindow e = (case e of OrderCardClick ord \<Rightarrow> True | _ \<Rightarrow> False)"

text \<open>
  The stored offset lies within the clamp of the track, and no accept has been requested.
\<close>

definition withinClamp :: "nat \<Rightarrow> nat \<Rightarrow> newOrderModal \<Rightarrow> bool" where
  "withinClamp w h m \<longleftrightarrow>
     0 \<le> swipeDeltaRef m \<and> swipeDeltaRef m \<le> max 0 (int w - int h) \<and>
     PREPARING \<notin> snd ` set (calls m)"

text \<open>
  The timer of a state is in order: handles are positive, and either no interval is
  live or exactly the one the ref points to.
\<close>

definition timerFine :: "'a modal_scheme \<Rightarrow> bool" where
  "timerFine m \<longleftrightarrow> 0 < nextHandle m \<and> (intervals m = [] \<or> (\<exists>h oid. running h oid m))"

text \<open>
  The screen is in order: its timer is, a modal is mounted exactly while an order is
  selected, and without a modal no interval is live.
\<close>

definition screenOk :: "ordersScreen \<Rightarrow> bool" where
  "screenOk s \<longleftrightarrow>
     timerFine s \<and> (mounted s \<longleftrightarrow> selectedOrder s \<noteq> None) \<and> (\<not> mounted s \<longrightarrow> intervals s = [])"

text \<open>
  What one event may do to the screen: it stays in order, and either no request is
  made or exactly one, after which no modal is mounted.
\<close>

definition stepEffect :: "ordersScreen \<Rightarrow> ordersScreen \<Rightarrow> bool" where
  "stepEffect s s' \<longleftrightarrow>
     screenOk s' \<and>
     (calls s' = calls s \<or> (\<exists>r. calls s' = calls s @ [r] \<and> \<not> mounted s'))"

text \<open>
  The interval of the detail view, if one is live, belongs to the order on display, and
  that order is \<^verbatim>\<open>NEW\<close>: the guard of the timer effect (line 229).
\<close>

definition timerForNew :: "ordersScreen \<Rightarrow> bool" where
  "timerForNew s \<longleftrightarrow>
     intervals s = [] \<or>
     (\<exists>h ord. selectedOrder s = Some ord \<and> status ord = NEW \<and> intervals s = [(h, order_id ord)])"

section \<open>Countdown: basic facts\<close>

lemma clearInterval_fields [simp]:
  "timeLeft (clearInterval h m) = timeLeft m"
  "timerIntervalRef (clearInterval h m) = timerIntervalRef m"
  "isSwiping (clearInterval h m) = isSwiping m"
  "swipeStartX (clearInterval h m) = swipeStartX m"
  "swipeDeltaRef (clearInterval h m) = swipeDeltaRef m"
  "nextHandle (clearInterval h m) = nextHandle m"
  "calls (clearInterval h m) = calls m"
  "intervals (clearInterval h m) = filter (\<lambda>(i, c). i \<noteq> h) (intervals m)"
  by (simp_all add: clearInterval_def)

lemma recordCall_fields [simp]:
  "timeLeft (recordCall oid st m) = timeLeft m"
  "timerIntervalRef (recordCall oid st m) = timerIntervalRef m"
  "isSwiping (recordCall oid st m) = isSwiping m"
  "swipeStartX (recordCall oid st m) = swipeStartX m"
  "swipeDeltaRef (recordCall oid st m) = swipeDeltaRef m"
  "nextHandle (recordCall oid st m) = nextHandle m"
  "intervals (recordCall oid st m) = intervals m"
  "calls (recordCall oid st m) = calls m @ [(oid, st)]"
  by (simp_all add: recordCall_def)

lemma handleUpdateStatus_fields [simp]:
  "timeLeft (handleUpdateStatus oid st s) = timeLeft s"
  "timerIntervalRef (handleUpdateStatus oid st s) = timerIntervalRef s"
  "isSwiping (handleUpdateStatus oid st s) = isSwiping s"
  "swipeStartX (handleUpdateStatus oid st s) = swipeStartX s"
  "swipeDeltaRef (handleUpdateStatus oid st s) = swipeDeltaRef s"
  "nextHandle (handleUpdateStatus oid st s) = nextHandle s"
  "intervals (handleUpdateStatus oid st s) = intervals s"
  "calls (handleUpdateStatus oid st s) = calls s @ [(oid, st)]"
  "selectedOrder (handleUpdateStatus oid st s) = None"
  "mounted (handleUpdateStatus oid st s) = mounted s"
  by (simp_all add: handleUpdateStatus_def)

lemma reportsOnly_recordCall: "reportsOnly recordCall"
  by (simp add: reportsOnly_def)

lemma reportsOnly_handleUpdateStatus: "reportsOnly handleUpdateStatus"
  by (simp add: reportsOnly_def)

lemma reportsOnly_fields:
  assumes "reportsOnly f"
  shows "calls (f oid st m) = calls m @ [(oid, st)]"
    and "intervals (f oid st m) = intervals m"
    and "nextHandle (f oid st m) = nextHandle m"
    and "timerIntervalRef (f oid st m) = timerIntervalRef m"
    and "timeLeft (f oid st m) = timeLeft m"
    and "isSwiping (f oid st m) = isSwiping m"
    and "swipeStartX (f oid st m) = swipeStartX m"
    and "swipeDeltaRef (f oid st m) = swipeDeltaRef m"
  using assms unfolding reportsOnly_def by blast+

lemma startCountdown_fields [simp]:
  "timeLeft (startCountdown D oid m) = D"
  "timerIntervalRef (startCountdown D oid m) = Some (nextHandle m)"
  "isSwiping (startCountdown D oid m) = isSwiping m"
  "swipeStartX (startCountdown D oid m) = swipeStartX m"
  "swipeDeltaRef (startCountdown D oid m) = swipeDeltaRef m"
  "nextHandle (startCountdown D oid m) = Suc (nextHandle m)"
  "calls (startCountdown D oid m) = calls m"
  by (simp_all add: startCountdown_def setInterval_def Let_def)

lemma startCountdown_intervals:
  "intervals (startCountdown D oid m) =
     (if truthy (timerIntervalRef m)
      then filter (\<lambda>(i, c). i \<noteq> the (timerIntervalRef m)) (intervals m)
      else intervals m) @ [(nextHandle m, oid)]"
  by (simp add: startCountdown_def setInterval_def Let_def)

lemma startCountdown_idle:
  "intervals m = [] \<Longrightarrow> intervals (startCountdown D oid m) = [(nextHandle m, oid)]"
  by (simp add: startCountdown_intervals)

lemma startCountdown_running:
  "running h c m \<Longrightarrow> intervals (startCountdown D oid m) = [(nextHandle m, oid)]"
  by (simp add: startCountdown_intervals running_def truthy_def)

lemma timerCleanup_fields [simp]:
  "timeLeft (timerCleanup m) = timeLeft m"
  "timerIntervalRef (timerCleanup m) = timerIntervalRef m"
  "isSwiping (timerCleanup m) = isSwiping m"
  "swipeStartX (timerCleanup m) = swipeStartX m"
  "swipeDeltaRef (timerCleanup m) = swipeDeltaRef m"
  "nextHandle (timerCleanup m) = nextHandle m"
  "calls (timerCleanup m) = calls m"
  by (simp_all add: timerCleanup_def)

lemma timerCleanup_idle: "intervals m = [] \<Longrightarrow> intervals (timerCleanup m) = []"
  by (simp add: timerCleanup_def)

lemma timerCleanup_running: "running h oid m \<Longrightarrow> intervals (timerCleanup m) = []"
  by (simp add: timerCleanup_def running_def truthy_def)

lemma elapse_idle: "intervals m = [] \<Longrightarrow> elapse f m = m"
  by (simp add: elapse_def)

lemma fire_idle: "intervals m = [] \<Longrightarrow> fire f h m = m"
  by (simp add: fire_def)

lemma elapse_funpow_idle: "intervals m = [] \<Longrightarrow> (elapse f ^^ n) m = m"
  by (induction n) (simp_all add: elapse_idle)

lemma elapse_running_step:
  assumes "intervals m = [(h, oid)]" "1 < timeLeft m"
  shows "elapse f m = m\<lparr>timeLeft := timeLeft m - 1\<rparr>"
  using assms by (simp add: elapse_def fire_def intervalCallback_def)

lemma elapse_running_expire:
  assumes "intervals m = [(h, oid)]" "timerIntervalRef m = Some h" "timeLeft m \<le> 1"
  shows "elapse f m = (f oid REJECTED (clearInterval h m))\<lparr>timeLeft := 0\<rparr>"
  using assms by (simp add: elapse_def fire_def intervalCallback_def)

lemma countdown_before_expiry:
  assumes "intervals m = [(h, oid)]" "int n < timeLeft m"
  shows "(elapse f ^^ n) m = m\<lparr>timeLeft := timeLeft m - int n\<rparr>"
  using assms
proof (induction n)
  case 0
  then show ?case by simp
next
  case (Suc n)
  let ?k = "m\<lparr>timeLeft := timeLeft m - int n\<rparr>"
  have prev: "(elapse f ^^ n) m = ?k" using Suc by simp
  have "elapse f ?k = ?k\<lparr>timeLeft := timeLeft ?k - 1\<rparr>"
    by (rule elapse_running_step[where h = h and oid = oid]) (use Suc.prems in simp_all)
  then show ?case by (simp add: prev)
qed

lemma elapse_expire_fields:
  assumes "reportsOnly f" "intervals m = [(h, oid)]" "timerIntervalRef m = Some h"
    and "timeLeft m \<le> 1"
  shows "calls (elapse f m) = calls m @ [(oid, REJECTED)]"
    and "intervals (elapse f m) = []"
    and "timeLeft (elapse f m) = 0"
    and "nextHandle (elapse f m) = nextHandle m"
    and "timerIntervalRef (elapse f m) = timerIntervalRef m"
    and "isSwiping (elapse f m) = isSwiping m"
    and "swipeStartX (elapse f m) = swipeStartX m"
    and "swipeDeltaRef (elapse f m) = swipeDeltaRef m"
  by (simp_all add: elapse_running_expire[OF assms(2,3,4)] reportsOnly_fields[OF assms(1)]
      assms(2))

lemma countdown_at_expiry:
  assumes "reportsOnly f" "intervals m = [(h, oid)]" "timerIntervalRef m = Some h"
    and "timeLeft m = int D" "0 < D"
  shows "calls ((elapse f ^^ D) m) = calls m @ [(oid, REJECTED)]"
    and "intervals ((elapse f ^^ D) m) = []"
    and "timeLeft ((elapse f ^^ D) m) = 0"
    and "nextHandle ((elapse f ^^ D) m) = nextHandle m"
    and "timerIntervalRef ((elapse f ^^ D) m) = timerIntervalRef m"
    and "isSwiping ((elapse f ^^ D) m) = isSwiping m"
    and "swipeStartX ((elapse f ^^ D) m) = swipeStartX m"
    and "swipeDeltaRef ((elapse f ^^ D) m) = swipeDeltaRef m"
proof -
  obtain n where D: "D = Suc n" using assms(5) by (cases D) auto
  let ?k = "m\<lparr>timeLeft := 1\<rparr>"
  have "(elapse f ^^ n) m = m\<lparr>timeLeft := timeLeft m - int n\<rparr>"
    by (rule countdown_before_expiry[OF assms(2)]) (simp add: assms(4) D)
  then have before: "(elapse f ^^ n) m = ?k" by (simp add: assms(4) D)
  have step: "(elapse f ^^ D) m = elapse f ?k" by (simp add: D before)
  have k: "intervals ?k = [(h, oid)]" "timerIntervalRef ?k = Some h" "timeLeft ?k \<le> 1"
    by (simp_all add: assms)
  note fields = elapse_expire_fields[OF assms(1) k]
  show "calls ((elapse f ^^ D) m) = calls m @ [(oid, REJECTED)]"
    and "intervals ((elapse f ^^ D) m) = []"
    and "timeLeft ((elapse f ^^ D) m) = 0"
    and "nextHandle ((elapse f ^^ D) m) = nextHandle m"
    and "timerIntervalRef ((elapse f ^^ D) m) = timerIntervalRef m"
    and "isSwiping ((elapse f ^^ D) m) = isSwiping m"
    and "swipeStartX ((elapse f ^^ D) m) = swipeStartX m"
    and "swipeDeltaRef ((elapse f ^^ D) m) = swipeDeltaRef m"
    by (simp_all add: step fields)
qed

lemma countdown_after_expiry:
  assumes "reportsOnly f" "intervals m = [(h, oid)]" "timerIntervalRef m = Some h"
    and "timeLeft m = int D" "0 < D" "D \<le> n"
  shows "(elapse f ^^ n) m = (elapse f ^^ D) m"
proof -
  have "(elapse f ^^ ((n - D) + D)) m = (elapse f ^^ (n - D)) ((elapse f ^^ D) m)"
    by (simp only: funpow_add o_apply)
  then have "(elapse f ^^ n) m = (elapse f ^^ (n - D)) ((elapse f ^^ D) m)"
    using assms(6) by simp
  also have "\<dots> = (elapse f ^^ D) m"
    by (rule elapse_funpow_idle) (rule countdown_at_expiry(2)[OF assms(1-5)])
  finally show ?thesis .
qed

lemma countdown_trace:
  assumes "reportsOnly f" and "0 < D" and "intervals m = []"
  shows "calls ((elapse f ^^ n) (startCountdown (int D) oid m)) =
           calls m @ (if n < D then [] else [(oid, REJECTED)])"
    and "intervals ((elapse f ^^ n) (startCountdown (int D) oid m)) =
           (if n < D then [(nextHandle m, oid)] else [])"
    and "timeLeft ((elapse f ^^ n) (startCountdown (int D) oid m)) =
           (if n < D then int D - int n else 0)"
proof -
  let ?m = "startCountdown (int D) oid m"
  have start: "intervals ?m = [(nextHandle m, oid)]"
    "timerIntervalRef ?m = Some (nextHandle m)" "timeLeft ?m = int D"
    by (simp_all add: startCountdown_idle assms(3))
  have "calls ((elapse f ^^ n) ?m) = calls m @ (if n < D then [] else [(oid, REJECTED)]) \<and>
        intervals ((elapse f ^^ n) ?m) = (if n < D then [(nextHandle m, oid)] else []) \<and>
        timeLeft ((elapse f ^^ n) ?m) = (if n < D then int D - int n else 0)"
  proof (cases "n < D")
    case True
    then have "(elapse f ^^ n) ?m = ?m\<lparr>timeLeft := timeLeft ?m - int n\<rparr>"
      by (intro countdown_before_expiry[OF start(1)]) simp
    then show ?thesis using True by (simp add: start(1))
  next
    case False
    then have "(elapse f ^^ n) ?m = (elapse f ^^ D) ?m"
      by (intro countdown_after_expiry[OF assms(1) start assms(2)]) simp
    then show ?thesis
      using False countdown_at_expiry(1-3)[OF assms(1) start assms(2)] by simp
  qed
  then show "calls ((elapse f ^^ n) ?m) = calls m @ (if n < D then [] else [(oid, REJECTED)])"
    and "intervals ((elapse f ^^ n) ?m) = (if n < D then [(nextHandle m, oid)] else [])"
    and "timeLeft ((elapse f ^^ n) ?m) = (if n < D then int D - int n else 0)"
    by simp_all
qed

text \<open>
  C1. For every duration \<open>D\<close> of at least one tick: once the countdown is started
  (with no other interval live) and left to run, \<^verbatim>\<open>onUpdateStatus(order.id, REJECTED)\<close>
  has been called not at all before \<open>D\<close> tick intervals have passed and exactly once
  from then on; before the expiry the timer shows \<open>D - n\<close> and its interval is live,
  afterwards no interval is live. One \<open>elapse\<close> is one tick interval, whatever its
  length in milliseconds. Both durations of the source, 600 and 150, are positive.
\<close>

theorem countdown_expires_once_at_duration:
  assumes "reportsOnly f" and "0 < D" and "intervals m = []"
  shows "calls ((elapse f ^^ n) (startCountdown (int D) oid m)) =
           calls m @ (if n < D then [] else [(oid, REJECTED)]) \<and>
         intervals ((elapse f ^^ n) (startCountdown (int D) oid m)) =
           (if n < D then [(nextHandle m, oid)] else []) \<and>
         timeLeft ((elapse f ^^ n) (startCountdown (int D) oid m)) =
           (if n < D then int D - int n else 0)"
  using countdown_trace[OF assms] by simp

theorem countdown_expires_once_at_duration_witness:
  "reportsOnly (recordCall :: string \<Rightarrow> OrderStatus \<Rightarrow> newOrderModal \<Rightarrow> newOrderModal) \<and>
   (0::nat) < 600 \<and>
   intervals (NewOrderModal_mount False None) = [] \<and>
   calls ((elapse recordCall ^^ 599)
     (startCountdown (int 600) ''o1'' (NewOrderModal_mount False None))) = [] \<and>
   calls ((elapse recordCall ^^ 600)
     (startCountdown (int 600) ''o1'' (NewOrderModal_mount False None))) = [(''o1'', REJECTED)] \<and>
   intervals ((elapse recordCall ^^ 600)
     (startCountdown (int 600) ''o1'' (NewOrderModal_mount False None))) = [] \<and>
   reportsOnly handleUpdateStatus \<and> (0::nat) < 150 \<and> intervals OrdersScreen_init = [] \<and>
   calls ((elapse handleUpdateStatus ^^ 149)
     (startCountdown (int 150) ''o1'' OrdersScreen_init)) = [] \<and>
   calls ((elapse handleUpdateStatus ^^ 150)
     (startCountdown (int 150) ''o1'' OrdersScreen_init)) = [(''o1'', REJECTED)]"
proof -
  have idle: "intervals (NewOrderModal_mount False None) = []"
    and none: "calls (NewOrderModal_mount False None) = []"
    by (simp_all add: NewOrderModal_mount_def NewOrderModal_timerEffect_def)
  have idle': "intervals OrdersScreen_init = []" and none': "calls OrdersScreen_init = []"
    by (simp_all add: OrdersScreen_init_def)
  show ?thesis
    using countdown_expires_once_at_duration[OF reportsOnly_recordCall _ idle, of 600 599 "''o1''"]
      countdown_expires_once_at_duration[OF reportsOnly_recordCall _ idle, of 600 600 "''o1''"]
      countdown_expires_once_at_duration[OF reportsOnly_handleUpdateStatus _ idle',
        of 150 149 "''o1''"]
      countdown_expires_once_at_duration[OF reportsOnly_handleUpdateStatus _ idle',
        of 150 150 "''o1''"]
    by (simp add: idle none idle' none' reportsOnly_recordCall reportsOnly_handleUpdateStatus)
qed

section \<open>The threshold product\<close>

lemma bit_length_bounds:
  "0 < n \<Longrightarrow> 2 ^ (bit_length n - 1) \<le> n \<and> n < 2 ^ bit_length n"
proof (induction n rule: bit_length.induct)
  case (1 n)
  show ?case
  proof (cases "n div 2 = 0")
    case True
    with "1.prems" have "n = 1" by presburger
    then show ?thesis by (simp add: bit_length.simps)
  next
    case False
    then have pos: "0 < n div 2" by simp
    have bl: "bit_length n = Suc (bit_length (n div 2))"
      using "1.prems" by (subst bit_length.simps) simp
    have blpos: "0 < bit_length (n div 2)"
      using pos by (subst bit_length.simps) simp
    from "1.IH" "1.prems" pos
    have ih: "2 ^ (bit_length (n div 2) - 1) \<le> n div 2" "n div 2 < 2 ^ bit_length (n div 2)"
      by simp_all
    have "(2::nat) ^ bit_length (n div 2) = 2 * 2 ^ (bit_length (n div 2) - 1)"
      using blpos by (cases "bit_length (n div 2)") simp_all
    with ih(1) have lo: "2 ^ bit_length (n div 2) \<le> n" by presburger
    from ih(2) have hi: "n < 2 * 2 ^ bit_length (n div 2)" by presburger
    show ?thesis using lo hi by (simp add: bl)
  qed
qed

lemma round_to_53_bits_near:
  "2 ^ 53 * round_to_53_bits n \<le> (2 ^ 53 + 1) * n \<and>
   (2 ^ 53 - 1) * n \<le> 2 ^ 53 * round_to_53_bits n"
proof (cases "bit_length n \<le> 53")
  case True
  then have "round_to_53_bits n = n" by (simp add: round_to_53_bits_def)
  then show ?thesis by simp
next
  case False
  define s where "s = bit_length n - 53"
  define p :: nat where "p = 2 ^ s"
  define q where "q = n div p"
  define r where "r = n mod p"
  have spos: "0 < s" using False by (simp add: s_def)
  have npos: "0 < n" using False by (cases "n = 0") (simp_all add: bit_length.simps)
  have n: "n = q * p + r" by (simp add: q_def r_def)
  have r: "r < p" by (simp add: r_def p_def)
  have "bit_length n - 1 = s + 52" using False by (simp add: s_def)
  with bit_length_bounds[OF npos] have "(2::nat) ^ (s + 52) \<le> n" by simp
  then have big: "p * 2 ^ 52 \<le> n" by (simp add: p_def power_add)
  have rd: "round_to_53_bits n =
      (if 2 * r < p \<or> (2 * r = p \<and> even q) then q * p else (q + 1) * p)"
    by (simp add: round_to_53_bits_def Let_def s_def p_def q_def r_def)
  have near: "2 * round_to_53_bits n \<le> 2 * n + p \<and> 2 * n \<le> 2 * round_to_53_bits n + p"
  proof (cases "2 * r < p \<or> (2 * r = p \<and> even q)")
    case True
    then have "round_to_53_bits n = q * p" unfolding rd by (rule if_P)
    moreover from True have "2 * r \<le> p" by auto
    ultimately show ?thesis using n by simp
  next
    case False
    then have "round_to_53_bits n = (q + 1) * p" unfolding rd by (rule if_not_P)
    then have "round_to_53_bits n = q * p + p" by simp
    moreover from False have "p \<le> 2 * r" by auto
    ultimately show ?thesis using n r by simp
  qed
  from near big show ?thesis by simp
qed


lemma above_threshold_iff:
  "of_int d > acceptanceThreshold w \<longleftrightarrow>
     int (round_to_53_bits (w * 6305039478318694)) < d * 2 ^ 53"
proof -
  have "of_int d > acceptanceThreshold w \<longleftrightarrow>
      (of_nat (round_to_53_bits (w * 6305039478318694)) :: rat) < of_int d * 2 ^ 53"
    by (simp add: acceptanceThreshold_def pos_divide_less_eq)
  also have "\<dots> \<longleftrightarrow>
      (of_int (int (round_to_53_bits (w * 6305039478318694))) :: rat) < of_int (d * 2 ^ 53)"
    by simp
  also have "\<dots> \<longleftrightarrow> int (round_to_53_bits (w * 6305039478318694)) < d * 2 ^ 53"
    by (rule of_int_less_iff)
  finally show ?thesis .
qed

lemma threshold_near_int:
  fixes w :: nat
  defines "T \<equiv> int (round_to_53_bits (w * 6305039478318694))"
  shows "9007199254740992 * T \<le> 9007199254740993 * (int w * 6305039478318694)"
    and "9007199254740991 * (int w * 6305039478318694) \<le> 9007199254740992 * T"
proof -
  let ?n = "w * 6305039478318694"
  from round_to_53_bits_near[of ?n]
  have a: "9007199254740992 * round_to_53_bits ?n \<le> 9007199254740993 * ?n"
    and b: "9007199254740991 * ?n \<le> 9007199254740992 * round_to_53_bits ?n"
    by simp_all
  from a have "int (9007199254740992 * round_to_53_bits ?n) \<le> int (9007199254740993 * ?n)"
    by (simp only: of_nat_le_iff)
  then show "9007199254740992 * T \<le> 9007199254740993 * (int w * 6305039478318694)"
    by (simp add: T_def)
  from b have "int (9007199254740991 * ?n) \<le> int (9007199254740992 * round_to_53_bits ?n)"
    by (simp only: of_nat_le_iff)
  then show "9007199254740991 * (int w * 6305039478318694) \<le> 9007199254740992 * T"
    by (simp add: T_def)
qed

lemma above_exact_threshold:
  assumes "w < 2 ^ 31" "7 * int w < 10 * d"
  shows "of_int d > acceptanceThreshold w"
proof -
  have w: "int w < 2147483648" using assms(1) by simp
  show ?thesis
    unfolding above_threshold_iff using threshold_near_int(1)[of w] w assms(2) by simp
qed

lemma below_exact_threshold:
  assumes "w < 2 ^ 31" "10 * d < 7 * int w"
  shows "\<not> of_int d > acceptanceThreshold w"
proof -
  have w: "int w < 2147483648" using assms(1) by simp
  show ?thesis
    unfolding above_threshold_iff using threshold_near_int(2)[of w] w assms(2) by simp
qed

lemma acceptanceThreshold_nonneg: "0 \<le> acceptanceThreshold w"
  by (simp add: acceptanceThreshold_def)

section \<open>The swipe gesture: facts\<close>

lemma handleSwipeMove_inactive: "\<not> isSwiping m \<Longrightarrow> handleSwipeMove sl ha x m = m"
  by (simp add: handleSwipeMove_def)

lemma handleSwipeMove_unrendered: "handleSwipeMove None ha x m = m"
  by (simp add: handleSwipeMove_def)

lemma handleSwipeMove_active:
  "isSwiping m \<Longrightarrow>
   handleSwipeMove (Some w) (Some h) x m =
     m\<lparr>swipeDeltaRef := max 0 (min (x - swipeStartX m) (int w - int h))\<rparr>"
  by (simp add: handleSwipeMove_def Let_def)

lemma handleSwipeMove_fold_inactive:
  "\<not> isSwiping m \<Longrightarrow> fold (handleSwipeMove sl ha) xs m = m"
  by (induction xs) (simp_all add: handleSwipeMove_inactive)

lemma handleSwipeMove_fold_active:
  "isSwiping m \<Longrightarrow> xs \<noteq> [] \<Longrightarrow>
   fold (handleSwipeMove (Some w) (Some h)) xs m =
     m\<lparr>swipeDeltaRef := max 0 (min (last xs - swipeStartX m) (int w - int h))\<rparr>"
proof (induction xs arbitrary: m)
  case Nil
  then show ?case by simp
next
  case (Cons x xs)
  let ?m = "m\<lparr>swipeDeltaRef := max 0 (min (x - swipeStartX m) (int w - int h))\<rparr>"
  have step: "handleSwipeMove (Some w) (Some h) x m = ?m"
    using Cons.prems(1) by (rule handleSwipeMove_active)
  show ?case
  proof (cases "xs = []")
    case True
    then show ?thesis by (simp add: step)
  next
    case False
    have "isSwiping ?m" using Cons.prems(1) by simp
    from Cons.IH[OF this False] show ?thesis using False by (simp add: step)
  qed
qed

text \<open>
  C6. During an active gesture every sequence of pointer moves leaves as stored (and
  displayed) offset the clamped displacement of the last move,
  \<open>max 0 (min (x - startX) maxOffset)\<close> with \<open>maxOffset = trackWidth - handleWidth\<close>:
  it is never negative, never above \<open>max 0 maxOffset\<close>, and so within
  \<open>[0, maxOffset]\<close> for every track that is at least as wide as its handle. While no
  gesture is active, moves change nothing. Every prefix of a sequence is a sequence, so
  this holds of each offset reported on the way.
\<close>

theorem swipe_moves_clamp_offset:
  "(\<not> isSwiping m \<longrightarrow> fold (handleSwipeMove sliderRef handleRef) xs m = m) \<and>
   (isSwiping m \<and> xs \<noteq> [] \<longrightarrow>
      swipeDeltaRef (fold (handleSwipeMove (Some w) (Some h)) xs m) =
        max 0 (min (last xs - swipeStartX m) (int w - int h)) \<and>
      0 \<le> swipeDeltaRef (fold (handleSwipeMove (Some w) (Some h)) xs m) \<and>
      swipeDeltaRef (fold (handleSwipeMove (Some w) (Some h)) xs m) \<le> max 0 (int w - int h) \<and>
      (h \<le> w \<longrightarrow>
         swipeDeltaRef (fold (handleSwipeMove (Some w) (Some h)) xs m) \<le> int w - int h))"
  by (auto simp: handleSwipeMove_fold_inactive handleSwipeMove_fold_active)

lemma NewOrderModal_run_simps [simp]:
  "NewOrderModal_run w h [] m = m"
  "NewOrderModal_run w h (e # es) m = NewOrderModal_run w h es (NewOrderModal_step w h e m)"
  "NewOrderModal_run w h (es @ es') m = NewOrderModal_run w h es' (NewOrderModal_run w h es m)"
  by (simp_all add: NewOrderModal_run_def)

lemma NewOrderModal_step_SwipeStart:
  "isOpen m \<Longrightarrow> order m = Some ord \<Longrightarrow>
   NewOrderModal_step w h (SwipeStart x) m = m\<lparr>swipeStartX := x, isSwiping := True\<rparr>"
  by (simp add: NewOrderModal_step_def NewOrderModal_rendered_def handleSwipeStart_def)

lemma NewOrderModal_step_SwipeMove:
  "isOpen m \<Longrightarrow> order m = Some ord \<Longrightarrow>
   NewOrderModal_step w h (SwipeMove x) m = handleSwipeMove (Some w) (Some h) x m"
  by (simp add: NewOrderModal_step_def NewOrderModal_rendered_def)

lemma NewOrderModal_step_SwipeEnd:
  "isOpen m \<Longrightarrow> order m = Some ord \<Longrightarrow>
   NewOrderModal_step w h SwipeEnd m = handleSwipeEnd recordCall (Some w) (order_id ord) m"
  by (simp add: NewOrderModal_step_def NewOrderModal_rendered_def)

lemma handleSwipeMove_props [simp]:
  "isOpen (handleSwipeMove sl ha x m) = isOpen m"
  "order (handleSwipeMove sl ha x m) = order m"
  by (simp_all add: handleSwipeMove_def Let_def split: option.splits)

lemma NewOrderModal_run_moves:
  "isOpen m \<Longrightarrow> order m = Some ord \<Longrightarrow>
   NewOrderModal_run w h (map SwipeMove xs) m = fold (handleSwipeMove (Some w) (Some h)) xs m"
  by (induction xs arbitrary: m) (simp_all add: NewOrderModal_step_SwipeMove)

lemma handleSwipeEnd_calls:
  "isSwiping m \<Longrightarrow>
   calls (handleSwipeEnd recordCall (Some w) oid m) =
     calls m @ (if of_int (swipeDeltaRef m) > acceptanceThreshold w then [(oid, PREPARING)] else [])"
  by (simp add: handleSwipeEnd_def Let_def)

lemma handleSwipeEnd_offset:
  "swipeDeltaRef (handleSwipeEnd recordCall sl oid m) = swipeDeltaRef m"
  by (simp add: handleSwipeEnd_def Let_def split: option.splits)

lemma NewOrderModal_gesture:
  assumes "isOpen m" and "order m = Some ord" and "xs \<noteq> []"
  shows "NewOrderModal_run w h (SwipeStart x0 # map SwipeMove xs @ [SwipeEnd]) m =
         handleSwipeEnd recordCall (Some w) (order_id ord)
           (m\<lparr>swipeStartX := x0, isSwiping := True,
              swipeDeltaRef := max 0 (min (last xs - x0) (int w - int h))\<rparr>)"
proof -
  let ?a = "m\<lparr>swipeStartX := x0, isSwiping := True\<rparr>"
  let ?b = "?a\<lparr>swipeDeltaRef := max 0 (min (last xs - x0) (int w - int h))\<rparr>"
  have a: "isOpen ?a" "order ?a = Some ord" "isSwiping ?a" using assms by simp_all
  have "NewOrderModal_run w h (map SwipeMove xs) ?a = ?b"
    by (simp add: NewOrderModal_run_moves[OF a(1,2)] handleSwipeMove_fold_active[OF a(3) assms(3)])
  then show ?thesis
    using assms(1,2) by (simp add: NewOrderModal_step_SwipeStart NewOrderModal_step_SwipeEnd)
qed

text \<open>
  C10. Beginning a gesture leaves the stored offset as it is, and a release that follows
  with no move in between is judged on that stored offset: the verdict of the pair
  (start, end) is commit exactly when the offset left by whatever came before exceeds
  the threshold. What a gesture with moves leaves behind, committed or not, is the
  clamped offset of its last move; a freshly mounted modal stores 0.
\<close>

theorem swipe_start_keeps_stored_offset:
  assumes "isOpen m" and "order m = Some ord"
  shows "swipeDeltaRef (NewOrderModal_step w h (SwipeStart x) m) = swipeDeltaRef m \<and>
         calls (NewOrderModal_run w h [SwipeStart x, SwipeEnd] m) =
           calls m @ (if of_int (swipeDeltaRef m) > acceptanceThreshold w
                      then [(order_id ord, PREPARING)] else []) \<and>
         (xs \<noteq> [] \<longrightarrow>
            swipeDeltaRef (NewOrderModal_run w h (SwipeStart y # map SwipeMove xs @ [SwipeEnd]) m) =
              max 0 (min (last xs - y) (int w - int h))) \<and>
         swipeDeltaRef (NewOrderModal_mount openProp ord0) = 0"
proof -
  have fresh: "swipeDeltaRef (NewOrderModal_mount openProp ord0) = 0"
    by (simp add: NewOrderModal_mount_def NewOrderModal_timerEffect_def split: option.splits)
  have left: "xs \<noteq> [] \<longrightarrow>
      swipeDeltaRef (NewOrderModal_run w h (SwipeStart y # map SwipeMove xs @ [SwipeEnd]) m) =
        max 0 (min (last xs - y) (int w - int h))"
  proof
    assume "xs \<noteq> []"
    show "swipeDeltaRef (NewOrderModal_run w h (SwipeStart y # map SwipeMove xs @ [SwipeEnd]) m) =
        max 0 (min (last xs - y) (int w - int h))"
      unfolding NewOrderModal_gesture[OF assms \<open>xs \<noteq> []\<close>] handleSwipeEnd_offset by simp
  qed
  show ?thesis
    using assms fresh left
    by (simp add: NewOrderModal_step_SwipeStart NewOrderModal_step_SwipeEnd handleSwipeEnd_calls)
qed

text \<open>
  C4 (amended). A gesture that ends in a release after at least one move commits, that
  is requests \<^verbatim>\<open>PREPARING\<close>, if and only if the clamped offset of its last move is
  greater than the double \<^verbatim>\<open>sliderWidth * 0.7\<close>; the distance travelled before plays
  no part. For a track narrower than \<open>2^31\<close> pixels this means: it commits whenever
  the offset is above seven tenths of the track width and never when it is below; at
  exactly seven tenths the verdict is that of the rounded product.
\<close>

theorem swipe_commit_threshold:
  assumes "isOpen m" and "order m = Some ord" and "xs \<noteq> []"
  shows "let d = max 0 (min (last xs - x0) (int w - int h)) in
         calls (NewOrderModal_run w h (SwipeStart x0 # map SwipeMove xs @ [SwipeEnd]) m) =
           calls m @ (if of_int d > acceptanceThreshold w then [(order_id ord, PREPARING)] else []) \<and>
         (w < 2 ^ 31 \<longrightarrow>
            (7 * int w < 10 * d \<longrightarrow> of_int d > acceptanceThreshold w) \<and>
            (10 * d < 7 * int w \<longrightarrow> \<not> of_int d > acceptanceThreshold w))"
  unfolding NewOrderModal_gesture[OF assms]
  by (simp add: handleSwipeEnd_calls Let_def above_exact_threshold below_exact_threshold)

section \<open>Evaluation on concrete inputs\<close>

text \<open>
  In JavaScript \<^verbatim>\<open>90 * 0.7\<close> is \<^verbatim>\<open>62.99999999999999\<close>, the double
  \<open>63 - 2^-47\<close>: the exact product of 90 and the double \<^verbatim>\<open>0.7\<close> is
  \<open>63 - 36 / 2^53\<close>, and between 32 and 64 doubles are \<open>2^-47 = 64 / 2^53\<close> apart,
  so the nearest double lies below 63. \<^verbatim>\<open>140 * 0.7\<close> is \<^verbatim>\<open>98\<close> exactly.
\<close>

lemma threshold_90: "acceptanceThreshold 90 = 8866461766385663 / 140737488355328"
proof -
  have "bit_length 567453553048682460 = 59" by (simp add: bit_length.simps)
  then have "round_to_53_bits 567453553048682460 = 567453553048682432"
    by (simp add: round_to_53_bits_def Let_def)
  then show ?thesis by (simp add: acceptanceThreshold_def)
qed

lemma threshold_140: "acceptanceThreshold 140 = 98"
proof -
  have "bit_length 882705526964617160 = 60" by (simp add: bit_length.simps)
  then have "round_to_53_bits 882705526964617160 = 882705526964617216"
    by (simp add: round_to_53_bits_def Let_def)
  then show ?thesis by (simp add: acceptanceThreshold_def)
qed

lemmas model_defs =
  NewOrderModal_mount_def NewOrderModal_timerEffect_def NewOrderModal_step_def
  NewOrderModal_rendered_def handleSwipeStart_def handleSwipeMove_def handleSwipeEnd_def
  handleCloseAndReject_def startCountdown_def setInterval_def truthy_def timerCleanup_def
  clearInterval_def recordCall_def elapse_def fire_def intervalCallback_def Let_def

lemmas screen_defs =
  OrdersScreen_step_def OrdersScreen_render_def OrdersScreen_select_def
  OrderDetailsModal_step_def OrderDetailsModal_timerEffect_def OrdersScreen_init_def
  handleUpdateStatus_def

text \<open>
  C4, the claim as stated fails: on a track of 90 pixels (handle 20) a drag to offset 63
  and release commits, although 63 is seven tenths of 90 and not more: the threshold
  \<^verbatim>\<open>90 * 0.7\<close> is the double \<^verbatim>\<open>62.99999999999999\<close>.
\<close>

theorem commit_at_exact_seven_tenths:
  "calls (NewOrderModal_run 90 20 [SwipeStart 0, SwipeMove 63, SwipeEnd]
     (NewOrderModal_mount True (Some \<lparr>order_id = ''o1'', status = NEW\<rparr>))) =
     [(''o1'', PREPARING)] \<and>
   \<not> (63::rat) > 0.7 * 90"
  by (simp add: model_defs threshold_90)

theorem swipe_commit_threshold_witness:
  "isOpen (NewOrderModal_mount True (Some \<lparr>order_id = ''o1'', status = NEW\<rparr>)) \<and>
   order (NewOrderModal_mount True (Some \<lparr>order_id = ''o1'', status = NEW\<rparr>)) =
     Some \<lparr>order_id = ''o1'', status = NEW\<rparr> \<and>
   [30, 105 :: int] \<noteq> [] \<and> (140::nat) < 2 ^ 31 \<and>
   7 * int 140 < 10 * max 0 (min (last [30, 105] - 0) (int 140 - int 40)) \<and>
   calls (NewOrderModal_run 140 40 (SwipeStart 0 # map SwipeMove [30, 105] @ [SwipeEnd])
     (NewOrderModal_mount True (Some \<lparr>order_id = ''o1'', status = NEW\<rparr>))) =
     [(''o1'', PREPARING)] \<and>
   10 * max 0 (min (last [100, 50] - 0) (int 140 - int 40)) < 7 * int 140 \<and>
   calls (NewOrderModal_run 140 40 (SwipeStart 0 # map SwipeMove [100, 50] @ [SwipeEnd])
     (NewOrderModal_mount True (Some \<lparr>order_id = ''o1'', status = NEW\<rparr>))) = []"
proof -
  let ?o = "\<lparr>order_id = ''o1'', status = NEW\<rparr>"
  have m: "isOpen (NewOrderModal_mount True (Some ?o))"
    "order (NewOrderModal_mount True (Some ?o)) = Some ?o"
    "calls (NewOrderModal_mount True (Some ?o)) = []"
    by (simp_all add: model_defs)
  from swipe_commit_threshold[OF m(1,2), where xs = "[30, 105]" and ?x0.0 = 0 and w = 140 and h = 40]
    swipe_commit_threshold[OF m(1,2), where xs = "[100, 50]" and ?x0.0 = 0 and w = 140 and h = 40]
  show ?thesis using m by (simp add: Let_def)
qed

theorem swipe_moves_clamp_offset_witness:
  "isSwiping (NewOrderModal_step 140 40 (SwipeStart 10)
     (NewOrderModal_mount True (Some \<lparr>order_id = ''o1'', status = NEW\<rparr>))) \<and>
   [50, 300, 120 :: int] \<noteq> [] \<and> (40::nat) \<le> 140 \<and>
   swipeDeltaRef (fold (handleSwipeMove (Some 140) (Some 40)) [50, 300, 120]
     (NewOrderModal_step 140 40 (SwipeStart 10)
       (NewOrderModal_mount True (Some \<lparr>order_id = ''o1'', status = NEW\<rparr>)))) = 100 \<and>
   \<not> isSwiping (NewOrderModal_mount True (Some \<lparr>order_id = ''o1'', status = NEW\<rparr>)) \<and>
   fold (handleSwipeMove (Some 140) (Some 40)) [50, 300, 120]
     (NewOrderModal_mount True (Some \<lparr>order_id = ''o1'', status = NEW\<rparr>)) =
   NewOrderModal_mount True (Some \<lparr>order_id = ''o1'', status = NEW\<rparr>)"
proof -
  let ?o = "\<lparr>order_id = ''o1'', status = NEW\<rparr>"
  let ?m = "NewOrderModal_mount True (Some ?o)"
  let ?s = "NewOrderModal_step 140 40 (SwipeStart 10) ?m"
  have s: "isSwiping ?s" "swipeStartX ?s = 10" "\<not> isSwiping ?m"
    by (simp_all add: model_defs)
  from swipe_moves_clamp_offset[where m = ?s and xs = "[50, 300, 120]" and w = 140 and h = 40]
    swipe_moves_clamp_offset[where m = ?m and xs = "[50, 300, 120]"
      and sliderRef = "Some 140" and handleRef = "Some 40"]
  show ?thesis using s by simp
qed

theorem swipe_start_keeps_stored_offset_witness:
  "isOpen (NewOrderModal_run 140 40
     [SwipeStart 0, SwipeMove 100, SwipeEnd, SetProps True (Some \<lparr>order_id = ''o2'', status = NEW\<rparr>)]
     (NewOrderModal_mount True (Some \<lparr>order_id = ''o1'', status = NEW\<rparr>))) \<and>
   order (NewOrderModal_run 140 40
     [SwipeStart 0, SwipeMove 100, SwipeEnd, SetProps True (Some \<lparr>order_id = ''o2'', status = NEW\<rparr>)]
     (NewOrderModal_mount True (Some \<lparr>order_id = ''o1'', status = NEW\<rparr>))) =
     Some \<lparr>order_id = ''o2'', status = NEW\<rparr> \<and>
   swipeDeltaRef (NewOrderModal_run 140 40
     [SwipeStart 0, SwipeMove 100, SwipeEnd, SetProps True (Some \<lparr>order_id = ''o2'', status = NEW\<rparr>)]
     (NewOrderModal_mount True (Some \<lparr>order_id = ''o1'', status = NEW\<rparr>))) = 100 \<and>
   calls (NewOrderModal_run 140 40 [SwipeStart 7, SwipeEnd]
     (NewOrderModal_run 140 40
       [SwipeStart 0, SwipeMove 100, SwipeEnd, SetProps True (Some \<lparr>order_id = ''o2'', status = NEW\<rparr>)]
       (NewOrderModal_mount True (Some \<lparr>order_id = ''o1'', status = NEW\<rparr>)))) =
     [(''o1'', PREPARING), (''o2'', PREPARING)] \<and>
   calls (NewOrderModal_run 140 40 [SwipeStart 7, SwipeEnd]
     (NewOrderModal_mount True (Some \<lparr>order_id = ''o1'', status = NEW\<rparr>))) = [] \<and>
   swipeDeltaRef (NewOrderModal_run 140 40 [SwipeStart 0, SwipeMove 50, SwipeMove 10, SwipeEnd]
     (NewOrderModal_mount True (Some \<lparr>order_id = ''o1'', status = NEW\<rparr>))) = 10"
proof -
  let ?oa = "\<lparr>order_id = ''o1'', status = NEW\<rparr>"
  let ?ob = "\<lparr>order_id = ''o2'', status = NEW\<rparr>"
  let ?fresh = "NewOrderModal_mount True (Some ?oa)"
  let ?m = "NewOrderModal_run 140 40
     [SwipeStart 0, SwipeMove 100, SwipeEnd, SetProps True (Some ?ob)] ?fresh"
  have m1: "isOpen ?m" by (simp add: model_defs threshold_140)
  have m2: "order ?m = Some ?ob" by (simp add: model_defs threshold_140)
  have m3: "swipeDeltaRef ?m = 100" by (simp add: model_defs threshold_140)
  have m4: "calls ?m = [(''o1'', PREPARING)]" by (simp add: model_defs threshold_140)
  note m = m1 m2 m3 m4
  have m0: "isOpen ?fresh" "order ?fresh = Some ?oa" "swipeDeltaRef ?fresh = 0" "calls ?fresh = []"
    by (simp_all add: model_defs)
  have above: "of_int (swipeDeltaRef ?m) > acceptanceThreshold 140"
    by (simp only: m(3) threshold_140)
  have below: "\<not> of_int (swipeDeltaRef ?fresh) > acceptanceThreshold 140"
    by (simp only: m0(3) threshold_140)
  from swipe_start_keeps_stored_offset[OF m(1,2), where w = 140 and h = 40 and x = 7]
  have "calls (NewOrderModal_run 140 40 [SwipeStart 7, SwipeEnd] ?m) =
      calls ?m @ [(order_id ?ob, PREPARING)]"
    by (simp only: above if_True)
  then have tap: "calls (NewOrderModal_run 140 40 [SwipeStart 7, SwipeEnd] ?m) =
      [(''o1'', PREPARING), (''o2'', PREPARING)]"
    by (simp only: m(4)) simp
  from swipe_start_keeps_stored_offset[OF m0(1,2), where w = 140 and h = 40 and x = 7]
  have "calls (NewOrderModal_run 140 40 [SwipeStart 7, SwipeEnd] ?fresh) = calls ?fresh @ []"
    by (simp only: below if_False)
  then have fresh: "calls (NewOrderModal_run 140 40 [SwipeStart 7, SwipeEnd] ?fresh) = []"
    by (simp only: m0(4)) simp
  from swipe_start_keeps_stored_offset[OF m0(1,2), where w = 140 and h = 40 and y = 0
      and xs = "[50, 10]"]
  have left: "swipeDeltaRef
      (NewOrderModal_run 140 40 [SwipeStart 0, SwipeMove 50, SwipeMove 10, SwipeEnd] ?fresh) = 10"
    by simp
  show ?thesis
    by (intro conjI m(1) m(2) m(3) tap fresh left)
qed

section \<open>Reset and cancellation\<close>

lemma NewOrderModal_run_ticks:
  "NewOrderModal_run w h (replicate n Elapse) m = (elapse recordCall ^^ n) m"
proof -
  have "NewOrderModal_step w h Elapse = elapse recordCall"
    by (rule ext) (simp add: NewOrderModal_step_def)
  then show ?thesis by (simp add: NewOrderModal_run_def fold_replicate)
qed

lemma NewOrderModal_step_SetProps_open:
  "NewOrderModal_step w h (SetProps True (Some ord)) m =
     startCountdown 600 (order_id ord) ((timerCleanup m)\<lparr>isOpen := True, order := Some ord\<rparr>)"
  by (simp add: NewOrderModal_step_def NewOrderModal_timerEffect_def)

lemma NewOrderModal_step_SetProps_closed:
  "\<not> openProp \<or> ord = None \<Longrightarrow>
   NewOrderModal_step w h (SetProps openProp ord) m =
     (timerCleanup m)\<lparr>isOpen := openProp, order := ord\<rparr>"
  by (auto simp: NewOrderModal_step_def NewOrderModal_timerEffect_def split: option.splits)

lemma intervals_props_update [simp]:
  "intervals (m\<lparr>isOpen := a, order := b\<rparr>) = intervals m"
  "calls (m\<lparr>isOpen := a, order := b\<rparr>) = calls m"
  "nextHandle (m\<lparr>isOpen := a, order := b\<rparr>) = nextHandle m"
  "timerIntervalRef (m\<lparr>isOpen := a, order := b\<rparr>) = timerIntervalRef m"
  by simp_all

text \<open>
  C7. While a countdown is running, a render of \<^verbatim>\<open>NewOrderModal\<close> with changed
  props that are open (the reset) sets the remaining time to the full 600 ticks and
  leaves exactly one live interval, the new one: React's cleanup clears the old
  interval, and the effect body on its own clears it too before it sets the new one.
  The reset calls \<^verbatim>\<open>onUpdateStatus\<close> not at all, and afterwards the expiry is
  requested once, 600 tick intervals after the reset, and not before.
\<close>

theorem reset_supersedes_running_countdown:
  assumes "running h oid m"
  shows "timeLeft (NewOrderModal_step w hw (SetProps True (Some ord)) m) = 600 \<and>
         intervals (NewOrderModal_step w hw (SetProps True (Some ord)) m) =
           [(nextHandle m, order_id ord)] \<and>
         calls (NewOrderModal_step w hw (SetProps True (Some ord)) m) = calls m \<and>
         intervals (NewOrderModal_timerEffect (m\<lparr>isOpen := True, order := Some ord\<rparr>)) =
           [(nextHandle m, order_id ord)] \<and>
         calls (NewOrderModal_run w hw (SetProps True (Some ord) # replicate n Elapse) m) =
           calls m @ (if n < 600 then [] else [(order_id ord, REJECTED)])"
proof -
  let ?c = "(timerCleanup m)\<lparr>isOpen := True, order := Some ord\<rparr>"
  have idle: "intervals ?c = []" using timerCleanup_running[OF assms] by simp
  have body: "intervals (NewOrderModal_timerEffect (m\<lparr>isOpen := True, order := Some ord\<rparr>)) =
      [(nextHandle m, order_id ord)]"
    using assms
    by (simp add: NewOrderModal_timerEffect_def startCountdown_intervals running_def truthy_def)
  have trace: "calls ((elapse recordCall ^^ n) (startCountdown (int 600) (order_id ord) ?c)) =
      calls ?c @ (if n < 600 then [] else [(order_id ord, REJECTED)])"
    by (rule countdown_trace(1)[OF reportsOnly_recordCall _ idle]) simp
  show ?thesis
    using trace body
    by (simp add: NewOrderModal_step_SetProps_open NewOrderModal_run_ticks
        startCountdown_idle[OF idle])
qed

text \<open>
  C8. Once the cleanup of the timer effect has run on a countdown that has not expired,
  no interval is live and nothing has been requested; from then on any number of tick
  intervals, and any firing of any handle, leave the whole state as it is: no decrement
  and no expiry.
\<close>

theorem cancel_stops_all_callbacks:
  assumes "k < D" and "intervals m = []" and "0 < nextHandle m"
  shows "intervals (timerCleanup ((elapse f ^^ k) (startCountdown (int D) oid m))) = [] \<and>
         calls (timerCleanup ((elapse f ^^ k) (startCountdown (int D) oid m))) = calls m \<and>
         (elapse f ^^ n) (timerCleanup ((elapse f ^^ k) (startCountdown (int D) oid m))) =
           timerCleanup ((elapse f ^^ k) (startCountdown (int D) oid m)) \<and>
         fire f h (timerCleanup ((elapse f ^^ k) (startCountdown (int D) oid m))) =
           timerCleanup ((elapse f ^^ k) (startCountdown (int D) oid m))"
proof -
  let ?m = "startCountdown (int D) oid m"
  let ?k = "(elapse f ^^ k) ?m"
  have start: "intervals ?m = [(nextHandle m, oid)]"
    by (simp add: startCountdown_idle assms(2))
  have k: "?k = ?m\<lparr>timeLeft := timeLeft ?m - int k\<rparr>"
    by (rule countdown_before_expiry[OF start]) (use assms(1) in simp)
  have "running (nextHandle m) oid ?k"
    using assms(3) by (simp add: k running_def start)
  then have idle: "intervals (timerCleanup ?k) = []" by (rule timerCleanup_running)
  have "calls (timerCleanup ?k) = calls m" by (simp add: k)
  with idle show ?thesis by (simp add: elapse_funpow_idle fire_idle)
qed

theorem reset_supersedes_running_countdown_witness:
  "running 1 ''o1'' (NewOrderModal_step 140 40 Elapse
     (NewOrderModal_mount True (Some \<lparr>order_id = ''o1'', status = NEW\<rparr>))) \<and>
   timeLeft (NewOrderModal_step 140 40 Elapse
     (NewOrderModal_mount True (Some \<lparr>order_id = ''o1'', status = NEW\<rparr>))) = 599 \<and>
   timeLeft (NewOrderModal_step 140 40 (SetProps True (Some \<lparr>order_id = ''o2'', status = NEW\<rparr>))
     (NewOrderModal_step 140 40 Elapse
       (NewOrderModal_mount True (Some \<lparr>order_id = ''o1'', status = NEW\<rparr>)))) = 600 \<and>
   intervals (NewOrderModal_step 140 40 (SetProps True (Some \<lparr>order_id = ''o2'', status = NEW\<rparr>))
     (NewOrderModal_step 140 40 Elapse
       (NewOrderModal_mount True (Some \<lparr>order_id = ''o1'', status = NEW\<rparr>)))) = [(2, ''o2'')] \<and>
   calls (NewOrderModal_run 140 40
     (SetProps True (Some \<lparr>order_id = ''o2'', status = NEW\<rparr>) # replicate 599 Elapse)
     (NewOrderModal_step 140 40 Elapse
       (NewOrderModal_mount True (Some \<lparr>order_id = ''o1'', status = NEW\<rparr>)))) = [] \<and>
   calls (NewOrderModal_run 140 40
     (SetProps True (Some \<lparr>order_id = ''o2'', status = NEW\<rparr>) # replicate 600 Elapse)
     (NewOrderModal_step 140 40 Elapse
       (NewOrderModal_mount True (Some \<lparr>order_id = ''o1'', status = NEW\<rparr>)))) =
     [(''o2'', REJECTED)]"
proof -
  let ?m = "NewOrderModal_step 140 40 Elapse
     (NewOrderModal_mount True (Some \<lparr>order_id = ''o1'', status = NEW\<rparr>))"
  have m: "running 1 ''o1'' ?m" "timeLeft ?m = 599" "calls ?m = []" "nextHandle ?m = 2"
    by (simp_all add: running_def model_defs)
  from reset_supersedes_running_countdown[OF m(1), where w = 140 and hw = 40
      and ord = "\<lparr>order_id = ''o2'', status = NEW\<rparr>" and n = 599]
    reset_supersedes_running_countdown[OF m(1), where w = 140 and hw = 40
      and ord = "\<lparr>order_id = ''o2'', status = NEW\<rparr>" and n = 600]
  show ?thesis using m by simp
qed

theorem cancel_stops_all_callbacks_witness:
  "(30::nat) < 600 \<and>
   intervals (NewOrderModal_mount False None) = [] \<and>
   0 < nextHandle (NewOrderModal_mount False None) \<and>
   intervals (timerCleanup ((elapse recordCall ^^ 30)
     (startCountdown (int 600) ''o1'' (NewOrderModal_mount False None)))) = [] \<and>
   calls (timerCleanup ((elapse recordCall ^^ 30)
     (startCountdown (int 600) ''o1'' (NewOrderModal_mount False None)))) = [] \<and>
   (elapse recordCall ^^ 1000) (timerCleanup ((elapse recordCall ^^ 30)
     (startCountdown (int 600) ''o1'' (NewOrderModal_mount False None)))) =
   timerCleanup ((elapse recordCall ^^ 30)
     (startCountdown (int 600) ''o1'' (NewOrderModal_mount False None))) \<and>
   fire recordCall 1 (timerCleanup ((elapse recordCall ^^ 30)
     (startCountdown (int 600) ''o1'' (NewOrderModal_mount False None)))) =
   timerCleanup ((elapse recordCall ^^ 30)
     (startCountdown (int 600) ''o1'' (NewOrderModal_mount False None)))"
proof -
  have m: "intervals (NewOrderModal_mount False None) = []"
    "0 < nextHandle (NewOrderModal_mount False None)"
    "calls (NewOrderModal_mount False None) = []"
    by (simp_all add: model_defs)
  have k: "(30::nat) < 600" by simp
  from cancel_stops_all_callbacks[OF k m(1,2), where f = recordCall and oid = "''o1''"
      and n = 1000 and h = 1]
  show ?thesis using m by simp
qed

section \<open>A handle wider than three tenths of the track\<close>

lemma intervalCallback_reports:
  assumes "reportsOnly f"
  shows "swipeDeltaRef (intervalCallback f oid m) = swipeDeltaRef m"
    and "calls (intervalCallback f oid m) = calls m \<or>
         calls (intervalCallback f oid m) = calls m @ [(oid, REJECTED)]"
  by (auto simp: intervalCallback_def Let_def reportsOnly_fields[OF assms] split: option.splits)

lemma fire_reports:
  assumes "reportsOnly f"
  shows "swipeDeltaRef (fire f h m) = swipeDeltaRef m"
    and "set (calls (fire f h m)) \<subseteq> set (calls m) \<union> {r. snd r = REJECTED}"
proof -
  show "swipeDeltaRef (fire f h m) = swipeDeltaRef m"
    by (simp add: fire_def intervalCallback_reports(1)[OF assms] split: option.splits)
  show "set (calls (fire f h m)) \<subseteq> set (calls m) \<union> {r. snd r = REJECTED}"
  proof (cases "map_of (intervals m) h")
    case None
    then show ?thesis by (simp add: fire_def)
  next
    case (Some oid)
    with intervalCallback_reports(2)[OF assms, of oid m] show ?thesis
      by (auto simp: fire_def)
  qed
qed

lemma fold_fire_reports:
  assumes "reportsOnly f"
  shows "swipeDeltaRef (fold (fire f) hs m) = swipeDeltaRef m \<and>
         set (calls (fold (fire f) hs m)) \<subseteq> set (calls m) \<union> {r. snd r = REJECTED}"
proof (induction hs arbitrary: m)
  case Nil
  then show ?case by simp
next
  case (Cons h hs)
  from Cons.IH[of "fire f h m"] fire_reports[OF assms, of h m]
  show ?case by auto
qed

lemma elapse_reports:
  assumes "reportsOnly f"
  shows "swipeDeltaRef (elapse f m) = swipeDeltaRef m"
    and "set (calls (elapse f m)) \<subseteq> set (calls m) \<union> {r. snd r = REJECTED}"
  using fold_fire_reports[OF assms] by (simp_all add: elapse_def)

lemma clamp_below_threshold:
  assumes "w < 2 ^ 31" and "3 * w < 10 * h" and "d \<le> max 0 (int w - int h)"
  shows "\<not> of_int d > acceptanceThreshold w"
proof (cases "d \<le> 0")
  case True
  then have "(of_int d :: rat) \<le> 0" by simp
  with acceptanceThreshold_nonneg[of w] show ?thesis by linarith
next
  case False
  with assms(3) have "d \<le> int w - int h" by simp
  with assms(2) have "10 * d < 7 * int w" by linarith
  then show ?thesis by (rule below_exact_threshold[OF assms(1)])
qed

lemma withinClamp_step:
  assumes "w < 2 ^ 31" and "3 * w < 10 * h" and "withinClamp w h m"
  shows "withinClamp w h (NewOrderModal_step w h e m)"
proof (cases e)
  case Elapse
  with assms(3) elapse_reports[OF reportsOnly_recordCall, of m] show ?thesis
    by (auto simp: withinClamp_def NewOrderModal_step_def)
next
  case (SwipeStart x)
  with assms(3) show ?thesis
    by (simp add: withinClamp_def NewOrderModal_step_def handleSwipeStart_def
        split: option.splits)
next
  case (SwipeMove x)
  with assms(3) show ?thesis
    by (auto simp: withinClamp_def NewOrderModal_step_def handleSwipeMove_def Let_def)
next
  case SwipeEnd
  from assms(3) have "\<not> of_int (swipeDeltaRef m) > acceptanceThreshold w"
    by (intro clamp_below_threshold[OF assms(1,2)]) (simp add: withinClamp_def)
  with SwipeEnd assms(3) show ?thesis
    by (simp add: withinClamp_def NewOrderModal_step_def handleSwipeEnd_def Let_def
        split: option.splits)
next
  case BackdropClick
  with assms(3) show ?thesis
    by (simp add: withinClamp_def NewOrderModal_step_def handleCloseAndReject_def
        split: option.splits)
next
  case (SetProps openProp ord)
  with assms(3) show ?thesis
    by (simp add: withinClamp_def NewOrderModal_step_def NewOrderModal_timerEffect_def
        split: option.splits)
qed

lemma withinClamp_run:
  assumes "w < 2 ^ 31" and "3 * w < 10 * h"
  shows "withinClamp w h m \<Longrightarrow> withinClamp w h (NewOrderModal_run w h es m)"
  by (induction es arbitrary: m) (simp_all add: withinClamp_step[OF assms])

lemma withinClamp_mount: "withinClamp w h (NewOrderModal_mount openProp ord)"
  by (simp add: withinClamp_def NewOrderModal_mount_def NewOrderModal_timerEffect_def
      split: option.splits)

text \<open>
  C9, the claim as stated fails: with a track of 90 pixels and a handle of 27, exactly
  three tenths, the clamp allows offset 63, and 63 is above the threshold
  \<^verbatim>\<open>90 * 0.7 = 62.99999999999999\<close>: the gesture commits.
\<close>

theorem commit_with_handle_three_tenths:
  "calls (NewOrderModal_run 90 27 [SwipeStart 0, SwipeMove 200, SwipeEnd]
     (NewOrderModal_mount True (Some \<lparr>order_id = ''o1'', status = NEW\<rparr>))) =
     [(''o1'', PREPARING)] \<and>
   (27::rat) \<ge> 0.3 * 90"
  by (simp add: model_defs threshold_90)

text \<open>
  C9 (amended). With a handle wider than three tenths of the track (whole pixels, track
  narrower than \<open>2^31\<close>) no sequence of events whatever makes \<^verbatim>\<open>NewOrderModal\<close>
  request \<^verbatim>\<open>PREPARING\<close>: the stored offset never leaves the clamp, and the clamp
  ends below the threshold.
\<close>

theorem no_commit_with_wide_handle:
  assumes "w < 2 ^ 31" and "3 * w < 10 * h"
  shows "(oid, PREPARING) \<notin> set (calls (NewOrderModal_run w h es (NewOrderModal_mount openProp ord)))"
proof -
  have "withinClamp w h (NewOrderModal_run w h es (NewOrderModal_mount openProp ord))"
    by (rule withinClamp_run[OF assms withinClamp_mount])
  then show ?thesis by (force simp: withinClamp_def)
qed

theorem no_commit_with_wide_handle_witness:
  "(140::nat) < 2 ^ 31 \<and> 3 * (140::nat) < 10 * 56 \<and>
   (''o1'', PREPARING) \<notin> set (calls (NewOrderModal_run 140 56
      [SwipeStart 0, SwipeMove 500, SwipeEnd, Elapse]
      (NewOrderModal_mount True (Some \<lparr>order_id = ''o1'', status = NEW\<rparr>))))"
proof -
  have a: "(140::nat) < 2 ^ 31" and b: "3 * (140::nat) < 10 * 56" by simp_all
  from no_commit_with_wide_handle[OF a b, where oid = "''o1''"
      and es = "[SwipeStart 0, SwipeMove 500, SwipeEnd, Elapse]" and openProp = True
      and ord = "Some \<lparr>order_id = ''o1'', status = NEW\<rparr>"]
  show ?thesis using a b by blast
qed

section \<open>The detail view: one request for each decision window\<close>

lemma screen_fields [simp]:
  "selectedOrder (clearInterval h s) = selectedOrder s"
  "mounted (clearInterval h s) = mounted s"
  "selectedOrder (timerCleanup s) = selectedOrder s"
  "mounted (timerCleanup s) = mounted s"
  "selectedOrder (startCountdown D oid s) = selectedOrder s"
  "mounted (startCountdown D oid s) = mounted s"
  "selectedOrder (handleSwipeStart x s) = selectedOrder s"
  "mounted (handleSwipeStart x s) = mounted s"
  "selectedOrder (handleSwipeMove sl ha x s) = selectedOrder s"
  "mounted (handleSwipeMove sl ha x s) = mounted s"
  by (simp_all add: clearInterval_def timerCleanup_def startCountdown_def setInterval_def
      handleSwipeStart_def handleSwipeMove_def Let_def split: option.splits)

lemma gesture_timer_fields [simp]:
  "intervals (handleSwipeStart x m) = intervals m"
  "nextHandle (handleSwipeStart x m) = nextHandle m"
  "timerIntervalRef (handleSwipeStart x m) = timerIntervalRef m"
  "calls (handleSwipeStart x m) = calls m"
  "intervals (handleSwipeMove sl ha x m) = intervals m"
  "nextHandle (handleSwipeMove sl ha x m) = nextHandle m"
  "timerIntervalRef (handleSwipeMove sl ha x m) = timerIntervalRef m"
  "calls (handleSwipeMove sl ha x m) = calls m"
  by (simp_all add: handleSwipeStart_def handleSwipeMove_def Let_def split: option.splits)

lemma timerFine_cleanup: "timerFine m \<Longrightarrow> intervals (timerCleanup m) = []"
  by (auto simp: timerFine_def timerCleanup_idle timerCleanup_running)

lemma timerFine_idleI: "0 < nextHandle m \<Longrightarrow> intervals m = [] \<Longrightarrow> timerFine m"
  by (simp add: timerFine_def)

lemma timerFine_start:
  "0 < nextHandle m \<Longrightarrow> intervals m = [] \<Longrightarrow> timerFine (startCountdown D oid m)"
  by (auto simp: timerFine_def running_def startCountdown_idle)

lemma screen_elapse:
  assumes "timerFine s"
  shows "timerFine (elapse handleUpdateStatus s) \<and>
         mounted (elapse handleUpdateStatus s) = mounted s \<and>
         ((calls (elapse handleUpdateStatus s) = calls s \<and>
           selectedOrder (elapse handleUpdateStatus s) = selectedOrder s) \<or>
          (\<exists>oid. calls (elapse handleUpdateStatus s) = calls s @ [(oid, REJECTED)] \<and>
             selectedOrder (elapse handleUpdateStatus s) = None))"
proof (cases "intervals s = []")
  case True
  then show ?thesis using assms by (simp add: elapse_idle)
next
  case False
  with assms obtain h oid where r: "running h oid s" and pos: "0 < nextHandle s"
    by (auto simp: timerFine_def)
  then have i: "intervals s = [(h, oid)]" "timerIntervalRef s = Some h" "h \<noteq> 0"
    by (simp_all add: running_def)
  show ?thesis
  proof (cases "1 < timeLeft s")
    case True
    then show ?thesis using i pos
      by (simp add: elapse_running_step[OF i(1)] timerFine_def running_def)
  next
    case False
    then have le: "timeLeft s \<le> 1" by simp
    show ?thesis using pos i
      by (simp add: elapse_running_expire[OF i(1,2) le] timerFine_def)
  qed
qed

lemma render_unmounted: "\<not> mounted t \<Longrightarrow> OrdersScreen_render t = t"
  by (simp add: OrdersScreen_render_def)

lemma render_mounted:
  assumes "timerFine t" "mounted t"
  shows "screenOk (OrdersScreen_render t)"
    and "calls (OrdersScreen_render t) = calls t"
    and "selectedOrder t = None \<Longrightarrow> \<not> mounted (OrdersScreen_render t)"
    and "selectedOrder t = None \<Longrightarrow> intervals (OrdersScreen_render t) = []"
    and "selectedOrder t \<noteq> None \<Longrightarrow> OrdersScreen_render t = t"
  using assms timerFine_cleanup[OF assms(1)]
  by (auto simp: OrdersScreen_render_def screenOk_def timerFine_def)

lemma timerFine_same:
  "nextHandle t = nextHandle s \<Longrightarrow> intervals t = intervals s \<Longrightarrow>
   timerIntervalRef t = timerIntervalRef s \<Longrightarrow> timerFine s \<Longrightarrow> timerFine t"
  by (simp add: timerFine_def running_def)

lemma stepEffect_render:
  assumes "timerFine t" "mounted t"
    and "(calls t = calls s \<or> (\<exists>r. calls t = calls s @ [r] \<and> selectedOrder t = None))"
  shows "stepEffect s (OrdersScreen_render t)"
  using render_mounted[OF assms(1,2)] assms(3) by (auto simp: stepEffect_def)

lemma handleSwipeEnd_screen:
  assumes "timerFine s" "mounted s"
  shows "timerFine (handleSwipeEnd handleUpdateStatus sl oid s) \<and>
         mounted (handleSwipeEnd handleUpdateStatus sl oid s) \<and>
         (calls (handleSwipeEnd handleUpdateStatus sl oid s) = calls s \<or>
          (calls (handleSwipeEnd handleUpdateStatus sl oid s) = calls s @ [(oid, PREPARING)] \<and>
           selectedOrder (handleSwipeEnd handleUpdateStatus sl oid s) = None))"
  using assms
  by (auto simp: handleSwipeEnd_def Let_def timerFine_def running_def split: option.splits)

lemma timerEffect_screen:
  assumes "0 < nextHandle c" "intervals c = []"
  shows "timerFine (OrderDetailsModal_timerEffect ord c)"
    and "calls (OrderDetailsModal_timerEffect ord c) = calls c"
    and "mounted (OrderDetailsModal_timerEffect ord c) = mounted c"
    and "selectedOrder (OrderDetailsModal_timerEffect ord c) = selectedOrder c"
proof -
  show "timerFine (OrderDetailsModal_timerEffect ord c)"
  proof (cases "status ord = NEW")
    case True
    then show ?thesis
      by (simp add: OrderDetailsModal_timerEffect_def timerFine_start[OF assms])
  next
    case False
    then show ?thesis
      by (simp add: OrderDetailsModal_timerEffect_def timerFine_idleI[OF assms])
  qed
qed (simp_all add: OrderDetailsModal_timerEffect_def)

lemma select_screen:
  assumes "screenOk s"
  shows "timerFine (OrdersScreen_select ord s)"
    and "mounted (OrdersScreen_select ord s)"
    and "selectedOrder (OrdersScreen_select ord s) = Some ord"
    and "calls (OrdersScreen_select ord s) = calls s"
proof -
  have pos: "0 < nextHandle s" using assms by (simp add: screenOk_def timerFine_def)
  have idle: "intervals (timerCleanup s) = []"
    using assms by (simp add: screenOk_def timerFine_cleanup)
  have idle': "\<not> mounted s \<Longrightarrow> intervals s = []"
    using assms by (simp add: screenOk_def)
  let ?c = "(timerCleanup s)\<lparr>selectedOrder := Some ord\<rparr>"
  let ?f = "s\<lparr>timeLeft := 150, timerIntervalRef := None, isSwiping := False,
              swipeStartX := 0, swipeDeltaRef := 0, selectedOrder := Some ord, mounted := True\<rparr>"
  have c: "0 < nextHandle ?c" "intervals ?c = []" using pos idle by simp_all
  have f: "\<not> mounted s \<Longrightarrow> 0 < nextHandle ?f" "\<not> mounted s \<Longrightarrow> intervals ?f = []"
    using pos idle' by simp_all
  have sel: "OrdersScreen_select ord s =
      (if mounted s then OrderDetailsModal_timerEffect ord ?c
       else OrderDetailsModal_timerEffect ord ?f)"
    by (simp add: OrdersScreen_select_def)
  show "timerFine (OrdersScreen_select ord s)"
    using timerEffect_screen(1)[OF c] timerEffect_screen(1)[OF f] by (simp add: sel)
  show "mounted (OrdersScreen_select ord s)"
    by (simp add: OrdersScreen_select_def OrderDetailsModal_timerEffect_def)
  show "selectedOrder (OrdersScreen_select ord s) = Some ord"
    by (simp add: OrdersScreen_select_def OrderDetailsModal_timerEffect_def)
  show "calls (OrdersScreen_select ord s) = calls s"
    by (simp add: OrdersScreen_select_def OrderDetailsModal_timerEffect_def)
qed

lemma details_step_screen:
  assumes "timerFine s" "mounted s" "selectedOrder s = Some ord"
  shows "timerFine (OrderDetailsModal_step w h e ord s) \<and>
         mounted (OrderDetailsModal_step w h e ord s) \<and>
         (calls (OrderDetailsModal_step w h e ord s) = calls s \<or>
          (\<exists>r. calls (OrderDetailsModal_step w h e ord s) = calls s @ [r] \<and>
             selectedOrder (OrderDetailsModal_step w h e ord s) = None))"
proof (cases e)
  case MouseUp
  then show ?thesis
    using handleSwipeEnd_screen[OF assms(1,2)]
    by (auto simp: OrderDetailsModal_step_def Let_def)
next
  case ParentRender
  have pos: "0 < nextHandle (timerCleanup s)" using assms(1) by (simp add: timerFine_def)
  have idle: "intervals (timerCleanup s) = []" using assms(1) by (rule timerFine_cleanup)
  from ParentRender show ?thesis
    using timerEffect_screen[OF pos idle, of ord] assms(2)
    by (simp add: OrderDetailsModal_step_def Let_def)
qed (use assms in \<open>auto simp: OrderDetailsModal_step_def Let_def
       intro: timerFine_same[where s = s]\<close>)

lemma screen_step:
  assumes "screenOk s"
  shows "stepEffect s (OrdersScreen_step w h e s)"
proof -
  have fine: "timerFine s" and ms: "mounted s \<longleftrightarrow> selectedOrder s \<noteq> None"
    and idle: "\<not> mounted s \<Longrightarrow> intervals s = []"
    using assms by (simp_all add: screenOk_def)
  have same: "stepEffect s s" using assms by (simp add: stepEffect_def)
  show ?thesis
  proof (cases "e = Tick")
    case True
    show ?thesis
    proof (cases "mounted s")
      case False
      then show ?thesis using True same idle
        by (simp add: OrdersScreen_step_def elapse_idle render_unmounted)
    next
      case m: True
      from screen_elapse[OF fine] m show ?thesis
        unfolding True OrdersScreen_step_def
        by (auto intro!: stepEffect_render)
    qed
  next
    case notTick: False
    show ?thesis
    proof (cases e)
      case Tick
      with notTick show ?thesis by simp
    next
      case (OrderCardClick ord)
      from select_screen[OF assms, of ord] show ?thesis
        unfolding OrderCardClick OrdersScreen_step_def
        by (auto intro!: stepEffect_render)
    qed (use same ms details_step_screen[OF fine, of _ w h e] in
         \<open>auto simp: OrdersScreen_step_def render_unmounted intro!: stepEffect_render
            split: option.splits\<close>)
  qed
qed

lemma OrdersScreen_run_simps [simp]:
  "OrdersScreen_run w h [] s = s"
  "OrdersScreen_run w h (e # es) s = OrdersScreen_run w h es (OrdersScreen_step w h e s)"
  "OrdersScreen_run w h (es @ es') s = OrdersScreen_run w h es' (OrdersScreen_run w h es s)"
  by (simp_all add: OrdersScreen_run_def)

lemma screenOk_init: "screenOk OrdersScreen_init"
  by (simp add: screenOk_def timerFine_def OrdersScreen_init_def)

lemma screenOk_run: "screenOk s \<Longrightarrow> screenOk (OrdersScreen_run w h es s)"
proof (induction es arbitrary: s)
  case Nil
  then show ?case by simp
next
  case (Cons e es)
  from screen_step[OF Cons.prems, of w h e] have "screenOk (OrdersScreen_step w h e s)"
    by (simp add: stepEffect_def)
  then show ?case by (simp add: Cons.IH)
qed

lemma screen_step_unmounted:
  assumes "screenOk s" "\<not> mounted s" "\<not> opensWindow e"
  shows "OrdersScreen_step w h e s = s"
proof -
  have idle: "intervals s = []" and none: "selectedOrder s = None"
    using assms(1,2) by (simp_all add: screenOk_def)
  show ?thesis
    using assms(2,3) idle none
    by (cases e) (simp_all add: OrdersScreen_step_def opensWindow_def elapse_idle render_unmounted)
qed

lemma screen_run_unmounted:
  assumes "screenOk s" "\<not> mounted s" "\<forall>e\<in>set es. \<not> opensWindow e"
  shows "OrdersScreen_run w h es s = s"
  using assms(3)
  by (induction es) (simp_all add: screen_step_unmounted[OF assms(1,2)])

lemma screen_run_window:
  assumes "screenOk s" "\<forall>e\<in>set es. \<not> opensWindow e"
  shows "calls (OrdersScreen_run w h es s) = calls s \<or>
         (\<exists>r. calls (OrdersScreen_run w h es s) = calls s @ [r] \<and>
              \<not> mounted (OrdersScreen_run w h es s))"
  using assms
proof (induction es arbitrary: s)
  case Nil
  then show ?case by simp
next
  case (Cons e es)
  let ?t = "OrdersScreen_step w h e s"
  from screen_step[OF Cons.prems(1), of w h e]
  have ok: "screenOk ?t"
    and eff: "calls ?t = calls s \<or> (\<exists>r. calls ?t = calls s @ [r] \<and> \<not> mounted ?t)"
    by (simp_all add: stepEffect_def)
  have rest: "\<forall>e\<in>set es. \<not> opensWindow e" using Cons.prems(2) by simp
  from eff show ?case
  proof
    assume "calls ?t = calls s"
    with Cons.IH[OF ok rest] show ?thesis by simp
  next
    assume "\<exists>r. calls ?t = calls s @ [r] \<and> \<not> mounted ?t"
    then obtain r where r: "calls ?t = calls s @ [r]" "\<not> mounted ?t" by blast
    have "OrdersScreen_run w h es ?t = ?t"
      by (rule screen_run_unmounted[OF ok r(2) rest])
    with r show ?thesis by simp
  qed
qed

lemma screenOk_unmounted_idle: "screenOk s \<Longrightarrow> \<not> mounted s \<Longrightarrow> intervals s = []"
  by (simp add: screenOk_def)

lemma screen_ticks_running:
  assumes "mounted s" "selectedOrder s = Some ord" "intervals s = [(i, oid)]"
    and "int k < timeLeft s"
  shows "OrdersScreen_run w h (replicate k Tick) s = s\<lparr>timeLeft := timeLeft s - int k\<rparr>"
  using assms(4)
proof (induction k)
  case 0
  then show ?case by simp
next
  case (Suc k)
  let ?p = "s\<lparr>timeLeft := timeLeft s - int k\<rparr>"
  have prev: "OrdersScreen_run w h (replicate k Tick) s = ?p" using Suc by simp
  have "elapse handleUpdateStatus ?p = ?p\<lparr>timeLeft := timeLeft ?p - 1\<rparr>"
    by (rule elapse_running_step[where h = i and oid = oid]) (use Suc.prems assms(3) in simp_all)
  then have "OrdersScreen_step w h Tick ?p = s\<lparr>timeLeft := timeLeft s - int (Suc k)\<rparr>"
    using assms(2) by (simp add: OrdersScreen_step_def OrdersScreen_render_def)
  moreover have "replicate (Suc k) Tick = replicate k Tick @ [Tick]"
    by (simp add: replicate_append_same)
  ultimately show ?case by (simp only: OrdersScreen_run_simps prev)
qed

lemma screen_moves:
  assumes "mounted s" "selectedOrder s = Some ord" "status ord = NEW"
  shows "OrdersScreen_run w h (map MouseMove xs) s = fold (handleSwipeMove (Some w) (Some h)) xs s"
  using assms
proof (induction xs arbitrary: s)
  case Nil
  then show ?case by simp
next
  case (Cons x xs)
  have "OrdersScreen_step w h (MouseMove x) s = handleSwipeMove (Some w) (Some h) x s"
    using Cons.prems
    by (simp add: OrdersScreen_step_def OrderDetailsModal_step_def OrdersScreen_render_def)
  then show ?case using Cons by simp
qed

lemma not_opens_iff: "list_all (\<lambda>e. \<not> opensWindow e) es \<longleftrightarrow> (\<forall>e\<in>set es. \<not> opensWindow e)"
  by (simp add: list_all_iff)

lemma screen_open_window:
  assumes "screenOk s"
  shows "screenOk (OrdersScreen_step w h (OrderCardClick ord) s)"
    and "calls (OrdersScreen_step w h (OrderCardClick ord) s) = calls s"
    and "mounted (OrdersScreen_step w h (OrderCardClick ord) s)"
    and "selectedOrder (OrdersScreen_step w h (OrderCardClick ord) s) = Some ord"
    and "OrdersScreen_step w h (OrderCardClick ord) s = OrdersScreen_select ord s"
proof -
  have step: "OrdersScreen_step w h (OrderCardClick ord) s = OrdersScreen_select ord s"
    using select_screen(3)[OF assms, of ord]
    by (simp add: OrdersScreen_step_def OrdersScreen_render_def)
  show "screenOk (OrdersScreen_step w h (OrderCardClick ord) s)"
    using screen_step[OF assms, of w h "OrderCardClick ord"] by (simp add: stepEffect_def)
  show "calls (OrdersScreen_step w h (OrderCardClick ord) s) = calls s"
    and "mounted (OrdersScreen_step w h (OrderCardClick ord) s)"
    and "selectedOrder (OrdersScreen_step w h (OrderCardClick ord) s) = Some ord"
    and "OrdersScreen_step w h (OrderCardClick ord) s = OrdersScreen_select ord s"
    by (simp_all add: step select_screen[OF assms])
qed

lemma select_new_timer:
  assumes "screenOk s" "status ord = NEW"
  shows "intervals (OrdersScreen_select ord s) = [(nextHandle s, order_id ord)]"
    and "timeLeft (OrdersScreen_select ord s) = 150"
proof -
  have idle: "intervals (timerCleanup s) = []"
    using assms(1) by (simp add: screenOk_def timerFine_cleanup)
  have idle': "\<not> mounted s \<Longrightarrow> intervals s = []"
    using assms(1) by (simp add: screenOk_def)
  show "intervals (OrdersScreen_select ord s) = [(nextHandle s, order_id ord)]"
    using idle idle' assms(2)
    by (simp add: OrdersScreen_select_def OrderDetailsModal_timerEffect_def startCountdown_idle)
  show "timeLeft (OrdersScreen_select ord s) = 150"
    using assms(2) by (simp add: OrdersScreen_select_def OrderDetailsModal_timerEffect_def)
qed

lemma screen_window_once:
  assumes "screenOk s" "\<forall>e\<in>set es. \<not> opensWindow e"
  shows "calls (OrdersScreen_run w h (OrderCardClick ord # es) s) = calls s \<or>
         (\<exists>r. calls (OrdersScreen_run w h (OrderCardClick ord # es) s) = calls s @ [r])"
  using screen_run_window[OF screen_open_window(1)[OF assms(1)] assms(2), of w h w h ord]
  by (auto simp: screen_open_window(2)[OF assms(1)])

lemma screen_commit:
  assumes ok: "screenOk s" and new: "status ord = NEW" and k: "k < 150" and xs: "xs \<noteq> []"
    and above: "of_int (max 0 (min (last xs - x0) (int w - int h))) > acceptanceThreshold w"
    and rest: "\<forall>e\<in>set es. \<not> opensWindow e"
  shows "calls (OrdersScreen_run w h
           (OrderCardClick ord # replicate k Tick @ MouseDown x0 # map MouseMove xs @ MouseUp # es) s) =
           calls s @ [(order_id ord, PREPARING)]"
    and "intervals (OrdersScreen_run w h
           (OrderCardClick ord # replicate k Tick @ MouseDown x0 # map MouseMove xs @ MouseUp # es) s) = []"
    and "\<not> mounted (OrdersScreen_run w h
           (OrderCardClick ord # replicate k Tick @ MouseDown x0 # map MouseMove xs @ MouseUp # es) s)"
proof -
  let ?d = "max 0 (min (last xs - x0) (int w - int h))"
  define s1 where "s1 = OrdersScreen_step w h (OrderCardClick ord) s"
  define s2 where "s2 = s1\<lparr>timeLeft := timeLeft s1 - int k\<rparr>"
  define s3 where "s3 = handleSwipeStart x0 s2"
  define s4 where "s4 = s3\<lparr>swipeDeltaRef := ?d\<rparr>"
  define s5 where "s5 = OrdersScreen_step w h MouseUp s4"
  have s1: "mounted s1" "selectedOrder s1 = Some ord" "calls s1 = calls s"
    "intervals s1 = [(nextHandle s, order_id ord)]" "timeLeft s1 = 150"
    using screen_open_window[OF ok, of w h ord] select_new_timer[OF ok new]
    by (simp_all add: s1_def)
  have r2: "OrdersScreen_run w h (replicate k Tick) s1 = s2"
    unfolding s2_def by (rule screen_ticks_running[OF s1(1,2,4)]) (use k s1(5) in simp)
  have s2: "mounted s2" "selectedOrder s2 = Some ord" "calls s2 = calls s"
    using s1 by (simp_all add: s2_def)
  have r3: "OrdersScreen_step w h (MouseDown x0) s2 = s3"
    using s2 new
    by (simp add: s3_def OrdersScreen_step_def OrderDetailsModal_step_def OrdersScreen_render_def)
  have s3: "mounted s3" "selectedOrder s3 = Some ord" "calls s3 = calls s" "isSwiping s3"
    "swipeStartX s3 = x0"
    using s2 by (simp_all add: s3_def handleSwipeStart_def)
  have r4: "OrdersScreen_run w h (map MouseMove xs) s3 = s4"
    using handleSwipeMove_fold_active[OF s3(4) xs, of w h]
    by (simp add: screen_moves[OF s3(1,2) new] s4_def s3(5))
  have s4: "mounted s4" "selectedOrder s4 = Some ord" "calls s4 = calls s" "isSwiping s4"
    "swipeDeltaRef s4 = ?d"
    using s3 by (simp_all add: s4_def)
  have s5: "calls s5 = calls s @ [(order_id ord, PREPARING)]" "\<not> mounted s5"
    using s4 new above
    by (simp_all add: s5_def OrdersScreen_step_def OrderDetailsModal_step_def
        handleSwipeEnd_def Let_def OrdersScreen_render_def)
  have run: "OrdersScreen_run w h
      (OrderCardClick ord # replicate k Tick @ MouseDown x0 # map MouseMove xs @ MouseUp # es) s =
      OrdersScreen_run w h es s5"
    by (simp add: r2 r3 r4 flip: s1_def s5_def)
  have ok5: "screenOk s5"
  proof -
    have "s5 = OrdersScreen_run w h
        (OrderCardClick ord # replicate k Tick @ MouseDown x0 # map MouseMove xs @ [MouseUp]) s"
      by (simp add: r2 r3 r4 flip: s1_def s5_def)
    moreover have "screenOk (OrdersScreen_run w h
        (OrderCardClick ord # replicate k Tick @ MouseDown x0 # map MouseMove xs @ [MouseUp]) s)"
      by (rule screenOk_run[OF ok])
    ultimately show ?thesis by (simp only:)
  qed
  have final: "OrdersScreen_run w h es s5 = s5"
    by (rule screen_run_unmounted[OF ok5 s5(2) rest])
  show "calls (OrdersScreen_run w h
           (OrderCardClick ord # replicate k Tick @ MouseDown x0 # map MouseMove xs @ MouseUp # es) s) =
           calls s @ [(order_id ord, PREPARING)]"
    and "intervals (OrdersScreen_run w h
           (OrderCardClick ord # replicate k Tick @ MouseDown x0 # map MouseMove xs @ MouseUp # es) s) = []"
    and "\<not> mounted (OrdersScreen_run w h
           (OrderCardClick ord # replicate k Tick @ MouseDown x0 # map MouseMove xs @ MouseUp # es) s)"
    unfolding run final using s5 screenOk_unmounted_idle[OF ok5 s5(2)] by simp_all
qed

lemma modal_closed_by_parent:
  assumes "running i oid m" "\<not> openProp \<or> ord = None"
  shows "intervals (NewOrderModal_step w h (SetProps openProp ord) m) = []"
    and "calls (NewOrderModal_run w h (SetProps openProp ord # replicate n Elapse) m) = calls m"
proof -
  have step: "NewOrderModal_step w h (SetProps openProp ord) m =
      (timerCleanup m)\<lparr>isOpen := openProp, order := ord\<rparr>"
    by (rule NewOrderModal_step_SetProps_closed[OF assms(2)])
  show idle: "intervals (NewOrderModal_step w h (SetProps openProp ord) m) = []"
    using timerCleanup_running[OF assms(1)] by (simp add: step)
  show "calls (NewOrderModal_run w h (SetProps openProp ord # replicate n Elapse) m) = calls m"
    using idle by (simp add: NewOrderModal_run_ticks elapse_funpow_idle) (simp add: step)
qed

lemma screen_close:
  assumes ok: "screenOk s" and m: "mounted s" and rest: "\<forall>e\<in>set es. \<not> opensWindow e"
  shows "calls (OrdersScreen_run w h (CloseClick # es) s) = calls s"
    and "intervals (OrdersScreen_run w h (CloseClick # es) s) = []"
    and "\<not> mounted (OrdersScreen_run w h (CloseClick # es) s)"
    and "swipeDeltaRef (OrdersScreen_run w h (CloseClick # es @ [OrderCardClick ord]) s) = 0"
    and "\<not> isSwiping (OrdersScreen_run w h (CloseClick # es @ [OrderCardClick ord]) s)"
proof -
  define c where "c = OrdersScreen_step w h CloseClick s"
  obtain ord0 where sel: "selectedOrder s = Some ord0"
    using ok m by (auto simp: screenOk_def)
  have c: "calls c = calls s" "\<not> mounted c"
    using sel m
    by (simp_all add: c_def OrdersScreen_step_def OrderDetailsModal_step_def OrdersScreen_render_def)
  have okc: "screenOk c"
    using screen_step[OF ok, of w h CloseClick] by (simp add: stepEffect_def c_def)
  have run: "OrdersScreen_run w h es c = c" by (rule screen_run_unmounted[OF okc c(2) rest])
  show "calls (OrdersScreen_run w h (CloseClick # es) s) = calls s"
    and "intervals (OrdersScreen_run w h (CloseClick # es) s) = []"
    and "\<not> mounted (OrdersScreen_run w h (CloseClick # es) s)"
    using c screenOk_unmounted_idle[OF okc c(2)] by (simp_all add: run flip: c_def)
  have "OrdersScreen_run w h (CloseClick # es @ [OrderCardClick ord]) s =
      OrdersScreen_select ord c"
    by (simp add: run screen_open_window(5)[OF okc] flip: c_def)
  then show "swipeDeltaRef (OrdersScreen_run w h (CloseClick # es @ [OrderCardClick ord]) s) = 0"
    and "\<not> isSwiping (OrdersScreen_run w h (CloseClick # es @ [OrderCardClick ord]) s)"
    using c(2) by (simp_all add: OrdersScreen_select_def OrderDetailsModal_timerEffect_def)
qed

text \<open>
  C2, the claim as stated fails: \<^verbatim>\<open>handleSwipeEnd\<close> requests \<^verbatim>\<open>PREPARING\<close> and
  leaves the interval alone. \<^verbatim>\<open>NewOrderModal\<close>, committed at tick 30 on a track of
  140 pixels (handle 40, offset 100) and then left with the props it had, requests
  \<^verbatim>\<open>REJECTED\<close> for the same order 570 ticks later.
\<close>

theorem commit_without_close_then_reject:
  "calls (NewOrderModal_run 140 40
      (replicate 30 Elapse @ [SwipeStart 0, SwipeMove 100, SwipeEnd] @ replicate 570 Elapse)
      (NewOrderModal_mount True (Some \<lparr>order_id = ''o1'', status = NEW\<rparr>))) =
   [(''o1'', PREPARING), (''o1'', REJECTED)]"
proof -
  let ?o = "\<lparr>order_id = ''o1'', status = NEW\<rparr>"
  let ?a = "\<lparr>timeLeft = 600, timerIntervalRef = Some 1, isSwiping = False, swipeStartX = 0,
      swipeDeltaRef = 0, intervals = [(1, ''o1'')], nextHandle = 2, calls = [],
      isOpen = True, order = Some ?o\<rparr>"
  let ?b = "?a\<lparr>timeLeft := 570\<rparr>"
  let ?c = "?b\<lparr>swipeStartX := 0, swipeDeltaRef := 100, calls := [(''o1'', PREPARING)]\<rparr>"
  have m0: "NewOrderModal_mount True (Some ?o) = ?a"
    by (simp add: model_defs)
  have "(elapse recordCall ^^ 30) ?a = ?a\<lparr>timeLeft := timeLeft ?a - int 30\<rparr>"
    by (rule countdown_before_expiry[where h = 1 and oid = "''o1''"]) simp_all
  then have m1: "NewOrderModal_run 140 40 (replicate 30 Elapse) ?a = ?b"
    by (simp add: NewOrderModal_run_ticks)
  have m2: "NewOrderModal_run 140 40 [SwipeStart 0, SwipeMove 100, SwipeEnd] ?b = ?c"
    by (simp add: model_defs threshold_140)
  have "calls ((elapse recordCall ^^ 570) ?c) = calls ?c @ [(''o1'', REJECTED)]"
    by (rule countdown_at_expiry(1)[OF reportsOnly_recordCall, where h = 1]) simp_all
  then have "calls (NewOrderModal_run 140 40 (replicate 570 Elapse) ?c) =
      [(''o1'', PREPARING), (''o1'', REJECTED)]"
    by (simp add: NewOrderModal_run_ticks)
  then show ?thesis
    by (simp only: NewOrderModal_run_simps(3) m0 m1 m2)
qed

text \<open>
  C2 (amended). In the detail view every decision window, from the click on an order
  card to the next such click, sees at most one request: \<^verbatim>\<open>handleUpdateStatus\<close>
  deselects the order with the first request, React unmounts the modal, and the cleanup
  of the timer effect clears the interval. So after a gesture commit, at any tick before
  the expiry, exactly \<^verbatim>\<open>PREPARING\<close> has been requested, no interval is live and no
  modal is mounted, whatever events follow. The commit handler itself cancels nothing:
  the timer of \<^verbatim>\<open>NewOrderModal\<close> is cancelled by the same cleanup once its parent
  renders it closed, and from then on no tick requests anything.
\<close>

theorem one_request_per_detail_window:
  "(list_all (\<lambda>e. \<not> opensWindow e) es' \<longrightarrow>
      calls (OrdersScreen_run w h (es @ OrderCardClick ord # es') OrdersScreen_init) =
        calls (OrdersScreen_run w h es OrdersScreen_init) \<or>
      (\<exists>r. calls (OrdersScreen_run w h (es @ OrderCardClick ord # es') OrdersScreen_init) =
        calls (OrdersScreen_run w h es OrdersScreen_init) @ [r])) \<and>
   (status ord = NEW \<and> k < 150 \<and> xs \<noteq> [] \<and>
    of_int (max 0 (min (last xs - x0) (int w - int h))) > acceptanceThreshold w \<and>
    list_all (\<lambda>e. \<not> opensWindow e) es' \<longrightarrow>
      calls (OrdersScreen_run w h
        (es @ OrderCardClick ord # replicate k Tick @ MouseDown x0 # map MouseMove xs @ MouseUp # es')
        OrdersScreen_init) =
        calls (OrdersScreen_run w h es OrdersScreen_init) @ [(order_id ord, PREPARING)] \<and>
      intervals (OrdersScreen_run w h
        (es @ OrderCardClick ord # replicate k Tick @ MouseDown x0 # map MouseMove xs @ MouseUp # es')
        OrdersScreen_init) = [] \<and>
      \<not> mounted (OrdersScreen_run w h
        (es @ OrderCardClick ord # replicate k Tick @ MouseDown x0 # map MouseMove xs @ MouseUp # es')
        OrdersScreen_init)) \<and>
   (running i oid m \<and> (\<not> openProp \<or> ord' = None) \<longrightarrow>
      intervals (NewOrderModal_step w h (SetProps openProp ord') m) = [] \<and>
      calls (NewOrderModal_run w h (SetProps openProp ord' # replicate n Elapse) m) = calls m)"
proof -
  have ok: "screenOk (OrdersScreen_run w h es OrdersScreen_init)"
    by (rule screenOk_run[OF screenOk_init])
  show ?thesis
    using screen_window_once[OF ok, where es = es' and w = w and h = h and ord = ord]
      screen_commit[OF ok, where ord = ord and k = k and xs = xs and ?x0.0 = x0 and w = w
        and h = h and es = es']
      modal_closed_by_parent(1)[where i = i and oid = oid and m = m and openProp = openProp
        and ord = ord' and w = w and h = h]
      modal_closed_by_parent(2)[where i = i and oid = oid and m = m and openProp = openProp
        and ord = ord' and w = w and h = h and n = n]
    by (simp only: OrdersScreen_run_simps not_opens_iff) blast
qed

theorem one_request_per_detail_window_witness:
  "status \<lparr>order_id = ''o1'', status = NEW\<rparr> = NEW \<and> (30::nat) < 150 \<and> [100::int] \<noteq> [] \<and>
   of_int (max 0 (min (last [100] - 0) (int 140 - int 40))) > acceptanceThreshold 140 \<and>
   list_all (\<lambda>e. \<not> opensWindow e) (replicate 570 Tick) \<and>
   calls (OrdersScreen_run 140 40
     ([] @ OrderCardClick \<lparr>order_id = ''o1'', status = NEW\<rparr> # replicate 30 Tick @
      MouseDown 0 # map MouseMove [100] @ MouseUp # replicate 570 Tick)
     OrdersScreen_init) = [(''o1'', PREPARING)] \<and>
   intervals (OrdersScreen_run 140 40
     ([] @ OrderCardClick \<lparr>order_id = ''o1'', status = NEW\<rparr> # replicate 30 Tick @
      MouseDown 0 # map MouseMove [100] @ MouseUp # replicate 570 Tick)
     OrdersScreen_init) = [] \<and>
   running 1 ''o1'' (NewOrderModal_mount True (Some \<lparr>order_id = ''o1'', status = NEW\<rparr>)) \<and>
   calls (NewOrderModal_run 140 40 (SetProps False None # replicate 600 Elapse)
     (NewOrderModal_mount True (Some \<lparr>order_id = ''o1'', status = NEW\<rparr>))) = []"
proof -
  have hyp: "status \<lparr>order_id = ''o1'', status = NEW\<rparr> = NEW \<and> (30::nat) < 150 \<and>
      [100::int] \<noteq> [] \<and>
      of_int (max 0 (min (last [100] - 0) (int 140 - int 40))) > acceptanceThreshold 140 \<and>
      list_all (\<lambda>e. \<not> opensWindow e) (replicate 570 Tick)"
    by (simp add: threshold_140 opensWindow_def list_all_iff)
  have run: "running 1 ''o1'' (NewOrderModal_mount True (Some \<lparr>order_id = ''o1'', status = NEW\<rparr>))"
    and none: "calls (NewOrderModal_mount True (Some \<lparr>order_id = ''o1'', status = NEW\<rparr>)) = []"
    by (simp_all add: running_def model_defs)
  have init: "calls (OrdersScreen_run 140 40 [] OrdersScreen_init) = []"
    by (simp add: OrdersScreen_init_def)
  from one_request_per_detail_window[where es' = "replicate 570 Tick" and w = 140 and h = 40
      and es = "[]" and ord = "\<lparr>order_id = ''o1'', status = NEW\<rparr>" and k = 30 and xs = "[100]"
      and ?x0.0 = 0 and i = 1 and oid = "''o1''"
      and m = "NewOrderModal_mount True (Some \<lparr>order_id = ''o1'', status = NEW\<rparr>)"
      and openProp = False and ord' = None and n = 600]
  show ?thesis using hyp run none init by simp
qed

section \<open>Dismissal\<close>

text \<open>
  C5, the claim as stated fails: a click on the backdrop of \<^verbatim>\<open>NewOrderModal\<close>
  dismisses the modal through \<^verbatim>\<open>handleCloseAndReject\<close>, which requests
  \<^verbatim>\<open>REJECTED\<close>.
\<close>

theorem backdrop_click_rejects:
  "calls (NewOrderModal_run 140 40 [BackdropClick]
      (NewOrderModal_mount True (Some \<lparr>order_id = ''o1'', status = NEW\<rparr>))) =
   [(''o1'', REJECTED)]"
  by (simp add: model_defs)

text \<open>
  C5 (amended). The cleanup of the timer effect, which React runs when the modal is
  unmounted or its props change, requests nothing and clears the running interval.
  Dismissing the detail view (backdrop or close button, \<^verbatim>\<open>onClose\<close>) requests
  nothing, unmounts the modal and leaves no interval, whatever follows; the modal that
  the next order card opens starts with a fresh gesture state. A click on the backdrop
  of \<^verbatim>\<open>NewOrderModal\<close> is by design a rejection: it requests \<^verbatim>\<open>REJECTED\<close> for
  the order shown, and leaves the interval and the gesture state as they are.
\<close>

theorem dismissal_side_effects:
  "calls (timerCleanup m) = calls m \<and>
   (running i oid m \<longrightarrow> intervals (timerCleanup m) = []) \<and>
   (mounted (OrdersScreen_run w h es OrdersScreen_init) \<and>
    list_all (\<lambda>e. \<not> opensWindow e) es' \<longrightarrow>
      calls (OrdersScreen_run w h (es @ CloseClick # es') OrdersScreen_init) =
        calls (OrdersScreen_run w h es OrdersScreen_init) \<and>
      intervals (OrdersScreen_run w h (es @ CloseClick # es') OrdersScreen_init) = [] \<and>
      \<not> mounted (OrdersScreen_run w h (es @ CloseClick # es') OrdersScreen_init) \<and>
      swipeDeltaRef (OrdersScreen_run w h (es @ CloseClick # es' @ [OrderCardClick ord'])
        OrdersScreen_init) = 0 \<and>
      \<not> isSwiping (OrdersScreen_run w h (es @ CloseClick # es' @ [OrderCardClick ord'])
        OrdersScreen_init)) \<and>
   (isOpen n \<and> order n = Some ord \<longrightarrow>
      calls (NewOrderModal_step w h BackdropClick n) = calls n @ [(order_id ord, REJECTED)] \<and>
      intervals (NewOrderModal_step w h BackdropClick n) = intervals n \<and>
      swipeDeltaRef (NewOrderModal_step w h BackdropClick n) = swipeDeltaRef n \<and>
      isSwiping (NewOrderModal_step w h BackdropClick n) = isSwiping n)"
proof -
  have ok: "screenOk (OrdersScreen_run w h es OrdersScreen_init)"
    by (rule screenOk_run[OF screenOk_init])
  have backdrop: "isOpen n \<and> order n = Some ord \<longrightarrow>
      calls (NewOrderModal_step w h BackdropClick n) = calls n @ [(order_id ord, REJECTED)] \<and>
      intervals (NewOrderModal_step w h BackdropClick n) = intervals n \<and>
      swipeDeltaRef (NewOrderModal_step w h BackdropClick n) = swipeDeltaRef n \<and>
      isSwiping (NewOrderModal_step w h BackdropClick n) = isSwiping n"
    by (simp add: NewOrderModal_step_def NewOrderModal_rendered_def handleCloseAndReject_def)
  show ?thesis
    using screen_close(1-3)[OF ok, where es = es' and w = w and h = h]
      screen_close(4,5)[OF ok, where es = es' and w = w and h = h and ord = ord']
      timerCleanup_running[of i oid m] backdrop
    by (simp only: OrdersScreen_run_simps not_opens_iff timerCleanup_fields) blast
qed

theorem dismissal_side_effects_witness:
  "running 1 ''o1'' (NewOrderModal_mount True (Some \<lparr>order_id = ''o1'', status = NEW\<rparr>)) \<and>
   intervals (timerCleanup
     (NewOrderModal_mount True (Some \<lparr>order_id = ''o1'', status = NEW\<rparr>))) = [] \<and>
   calls (timerCleanup
     (NewOrderModal_mount True (Some \<lparr>order_id = ''o1'', status = NEW\<rparr>))) = [] \<and>
   mounted (OrdersScreen_run 140 40 [OrderCardClick \<lparr>order_id = ''o1'', status = NEW\<rparr>, Tick]
     OrdersScreen_init) \<and>
   list_all (\<lambda>e. \<not> opensWindow e) (replicate 200 Tick) \<and>
   calls (OrdersScreen_run 140 40
     ([OrderCardClick \<lparr>order_id = ''o1'', status = NEW\<rparr>, Tick] @ CloseClick # replicate 200 Tick)
     OrdersScreen_init) = [] \<and>
   intervals (OrdersScreen_run 140 40
     ([OrderCardClick \<lparr>order_id = ''o1'', status = NEW\<rparr>, Tick] @ CloseClick # replicate 200 Tick)
     OrdersScreen_init) = [] \<and>
   isOpen (NewOrderModal_mount True (Some \<lparr>order_id = ''o1'', status = NEW\<rparr>)) \<and>
   order (NewOrderModal_mount True (Some \<lparr>order_id = ''o1'', status = NEW\<rparr>)) =
     Some \<lparr>order_id = ''o1'', status = NEW\<rparr> \<and>
   calls (NewOrderModal_step 140 40 BackdropClick
     (NewOrderModal_mount True (Some \<lparr>order_id = ''o1'', status = NEW\<rparr>))) =
     [(''o1'', REJECTED)]"
proof -
  let ?o = "\<lparr>order_id = ''o1'', status = NEW\<rparr>"
  have m: "running 1 ''o1'' (NewOrderModal_mount True (Some ?o))"
    "calls (NewOrderModal_mount True (Some ?o)) = []"
    "isOpen (NewOrderModal_mount True (Some ?o))"
    "order (NewOrderModal_mount True (Some ?o)) = Some ?o"
    by (simp_all add: running_def model_defs)
  have s: "mounted (OrdersScreen_run 140 40 [OrderCardClick ?o, Tick] OrdersScreen_init)"
    "calls (OrdersScreen_run 140 40 [OrderCardClick ?o, Tick] OrdersScreen_init) = []"
    by (simp_all add: screen_defs model_defs)
  have l: "list_all (\<lambda>e. \<not> opensWindow e) (replicate 200 Tick)"
    by (simp add: opensWindow_def list_all_iff)
  from dismissal_side_effects[where m = "NewOrderModal_mount True (Some ?o)" and i = 1
      and oid = "''o1''" and w = 140 and h = 40 and es = "[OrderCardClick ?o, Tick]"
      and es' = "replicate 200 Tick" and n = "NewOrderModal_mount True (Some ?o)" and ord = ?o]
  show ?thesis using m s l by simp
qed

section \<open>The state machine\<close>

lemma render_timerForNew:
  assumes "timerFine t" "mounted t \<or> intervals t = []"
    and "selectedOrder t = None \<or> timerForNew t"
  shows "timerForNew (OrdersScreen_render t)"
  using assms timerFine_cleanup[OF assms(1)]
  by (auto simp: OrdersScreen_render_def timerForNew_def)

lemma timerEffect_forNew:
  assumes "intervals c = []" "selectedOrder c = Some ord"
  shows "timerForNew (OrderDetailsModal_timerEffect ord c)"
  using assms
  by (auto simp: OrderDetailsModal_timerEffect_def timerForNew_def startCountdown_idle)

lemma select_forNew:
  assumes "screenOk s"
  shows "timerForNew (OrdersScreen_select ord s)"
proof -
  have idle: "intervals (timerCleanup s) = []"
    using assms by (simp add: screenOk_def timerFine_cleanup)
  have idle': "\<not> mounted s \<Longrightarrow> intervals s = []"
    using assms by (simp add: screenOk_def)
  show ?thesis
    using idle idle'
    by (auto simp: OrdersScreen_select_def intro!: timerEffect_forNew)
qed

lemma elapse_forNew:
  assumes "timerFine s" "timerForNew s"
  shows "(calls (elapse handleUpdateStatus s) = calls s \<and>
          selectedOrder (elapse handleUpdateStatus s) = selectedOrder s \<and>
          intervals (elapse handleUpdateStatus s) = intervals s) \<or>
         (\<exists>ord. selectedOrder s = Some ord \<and> status ord = NEW \<and>
            calls (elapse handleUpdateStatus s) = calls s @ [(order_id ord, REJECTED)] \<and>
            selectedOrder (elapse handleUpdateStatus s) = None)"
proof (cases "intervals s = []")
  case True
  then show ?thesis by (simp add: elapse_idle)
next
  case False
  with assms(2) obtain h ord where o: "selectedOrder s = Some ord" "status ord = NEW"
    "intervals s = [(h, order_id ord)]"
    by (auto simp: timerForNew_def)
  with assms(1) have r: "timerIntervalRef s = Some h"
    by (auto simp: timerFine_def running_def)
  show ?thesis
  proof (cases "1 < timeLeft s")
    case True
    then show ?thesis by (simp add: elapse_running_step[OF o(3)])
  next
    case False
    then have le: "timeLeft s \<le> 1" by simp
    show ?thesis using o
      by (simp add: elapse_running_expire[OF o(3) r le])
  qed
qed

lemma details_step_legal:
  assumes "selectedOrder s = Some ord"
  shows "(calls (OrderDetailsModal_step w h e ord s) = calls s \<and>
          (selectedOrder (OrderDetailsModal_step w h e ord s) = None \<or>
           selectedOrder (OrderDetailsModal_step w h e ord s) = Some ord \<and>
           (intervals (OrderDetailsModal_step w h e ord s) = intervals s \<or>
            e = ParentRender))) \<or>
         (\<exists>t. calls (OrderDetailsModal_step w h e ord s) = calls s @ [(order_id ord, t)] \<and>
              legal_edge (status ord) t \<and>
              selectedOrder (OrderDetailsModal_step w h e ord s) = None)"
  using assms
  by (cases e)
    (auto simp: OrderDetailsModal_step_def Let_def handleSwipeEnd_def handleSwipeMove_def
      handleSwipeStart_def OrderDetailsModal_timerEffect_def split: option.splits)

lemma render_calls: "calls (OrdersScreen_render t) = calls t"
  by (simp add: OrdersScreen_render_def)

lemma screen_step_legal:
  assumes ok: "screenOk s" and new: "timerForNew s"
  shows "timerForNew (OrdersScreen_step w h e s) \<and>
         (calls (OrdersScreen_step w h e s) = calls s \<or>
          (\<exists>ord t. selectedOrder s = Some ord \<and>
             calls (OrdersScreen_step w h e s) = calls s @ [(order_id ord, t)] \<and>
             legal_edge (status ord) t))"
proof -
  have fine: "timerFine s" and ms: "mounted s \<longleftrightarrow> selectedOrder s \<noteq> None"
    and idle: "\<not> mounted s \<Longrightarrow> intervals s = []"
    using ok by (simp_all add: screenOk_def)
  have same: "timerForNew (OrdersScreen_render s)"
    by (rule render_timerForNew[OF fine]) (use idle new in auto)
  have other: "timerForNew (OrdersScreen_step w h e' s) \<and>
         (calls (OrdersScreen_step w h e' s) = calls s \<or>
          (\<exists>ord t. selectedOrder s = Some ord \<and>
             calls (OrdersScreen_step w h e' s) = calls s @ [(order_id ord, t)] \<and>
             legal_edge (status ord) t))"
    if e': "e' \<noteq> Tick" "\<not> opensWindow e'" for e'
  proof (cases "selectedOrder s")
    case None
    then have "OrdersScreen_step w h e' s = OrdersScreen_render s"
      using e' by (cases e') (simp_all add: OrdersScreen_step_def opensWindow_def)
    then show ?thesis using same by (simp add: render_calls)
  next
    case (Some ord)
    then have m: "mounted s" using ms by simp
    let ?t = "OrderDetailsModal_step w h e' ord s"
    have step: "OrdersScreen_step w h e' s = OrdersScreen_render ?t"
      using e' Some m by (cases e') (simp_all add: OrdersScreen_step_def opensWindow_def)
    have t: "timerFine ?t" "mounted ?t"
      using details_step_screen[OF fine m Some, of w h e'] by simp_all
    have "selectedOrder ?t = None \<or> timerForNew ?t"
    proof (cases "e' = ParentRender")
      case True
      have "timerForNew (OrderDetailsModal_timerEffect ord (timerCleanup s))"
        by (rule timerEffect_forNew) (use Some timerFine_cleanup[OF fine] in \<open>simp_all add: timerCleanup_def\<close>)
      then show ?thesis using True by (simp add: OrderDetailsModal_step_def)
    next
      case False
      then show ?thesis
        using details_step_legal[OF Some, of w h e'] new Some
        by (auto simp: timerForNew_def)
    qed
    then have "timerForNew (OrdersScreen_render ?t)"
      by (intro render_timerForNew[OF t(1)]) (use t(2) in auto)
    moreover have "calls ?t = calls s \<or>
        (\<exists>t'. calls ?t = calls s @ [(order_id ord, t')] \<and> legal_edge (status ord) t')"
      using details_step_legal[OF Some, of w h e'] by auto
    ultimately show ?thesis using Some by (simp add: step render_calls)
  qed
  show ?thesis
  proof (cases e)
    case Tick
    let ?t = "elapse handleUpdateStatus s"
    have t: "timerFine ?t" "mounted ?t = mounted s"
      using screen_elapse[OF fine] by simp_all
    from elapse_forNew[OF fine new] have "timerForNew (OrdersScreen_render ?t)"
    proof
      assume a: "calls ?t = calls s \<and> selectedOrder ?t = selectedOrder s \<and>
          intervals ?t = intervals s"
      show ?thesis
        by (rule render_timerForNew[OF t(1)]) (use a new idle t(2) in \<open>auto simp: timerForNew_def\<close>)
    next
      assume "\<exists>ord. selectedOrder s = Some ord \<and> status ord = NEW \<and>
          calls ?t = calls s @ [(order_id ord, REJECTED)] \<and> selectedOrder ?t = None"
      then have none: "selectedOrder ?t = None" and m: "mounted s" using ms by auto
      show ?thesis
        by (rule render_timerForNew[OF t(1)]) (use none m t(2) in auto)
    qed
    moreover have "calls ?t = calls s \<or>
        (\<exists>ord t. selectedOrder s = Some ord \<and> calls ?t = calls s @ [(order_id ord, t)] \<and>
           legal_edge (status ord) t)"
      using elapse_forNew[OF fine new] by auto
    ultimately show ?thesis using Tick by (simp add: OrdersScreen_step_def render_calls)
  next
    case (OrderCardClick ord)
    have "timerForNew (OrdersScreen_render (OrdersScreen_select ord s))"
      by (rule render_timerForNew[OF select_screen(1)[OF ok]])
        (use select_screen(2)[OF ok, of ord] select_forNew[OF ok, of ord] in auto)
    then show ?thesis using OrderCardClick select_screen(4)[OF ok, of ord]
      by (simp add: OrdersScreen_step_def render_calls)
  next
    case CloseClick
    from other[of CloseClick] show ?thesis using CloseClick by (simp add: opensWindow_def)
  next
    case (MouseDown x)
    from other[of "MouseDown x"] show ?thesis using MouseDown by (simp add: opensWindow_def)
  next
    case (MouseMove x)
    from other[of "MouseMove x"] show ?thesis using MouseMove by (simp add: opensWindow_def)
  next
    case MouseUp
    from other[of MouseUp] show ?thesis using MouseUp by (simp add: opensWindow_def)
  next
    case ReadyForPickupClick
    from other[of ReadyForPickupClick] show ?thesis using ReadyForPickupClick by (simp add: opensWindow_def)
  next
    case MarkCompletedClick
    from other[of MarkCompletedClick] show ?thesis using MarkCompletedClick by (simp add: opensWindow_def)
  next
    case ParentRender
    from other[of ParentRender] show ?thesis using ParentRender by (simp add: opensWindow_def)
  qed
qed

lemma timerForNew_run:
  "screenOk s \<Longrightarrow> timerForNew s \<Longrightarrow> timerForNew (OrdersScreen_run w h es s)"
proof (induction es arbitrary: s)
  case Nil
  then show ?case by simp
next
  case (Cons e es)
  have "screenOk (OrdersScreen_step w h e s)"
    using screen_step[OF Cons.prems(1), of w h e] by (simp add: stepEffect_def)
  moreover have "timerForNew (OrdersScreen_step w h e s)"
    using screen_step_legal[OF Cons.prems, of w h e] by simp
  ultimately show ?case by (simp add: Cons.IH)
qed

lemma timerForNew_init: "timerForNew OrdersScreen_init"
  by (simp add: timerForNew_def OrdersScreen_init_def)

text \<open>
  C3. For every pair of a current status and a requested target: if the pair is one of
  the four legal edges the request succeeds and the order has the target status; if not,
  the answer is the invalid-transition error and the order is unchanged. The detail view
  asks for legal edges only: whatever events came before, an event makes the screen send
  no request or one request, for the order on display and along a legal edge from the
  status that order is displayed with (the timer and the gesture for a \<^verbatim>\<open>NEW\<close>
  order, one button each for \<^verbatim>\<open>PREPARING\<close> and \<^verbatim>\<open>READY_FOR_PICKUP\<close>), so the
  request succeeds on that order.
\<close>

theorem transition_follows_legal_edges:
  "(legal_edge (status ord) target \<longrightarrow>
      transition (status ord) target = Inr target \<and>
      requestStatusTransition ord target = (Inr (), ord\<lparr>status := target\<rparr>)) \<and>
   (\<not> legal_edge (status ord) target \<longrightarrow>
      transition (status ord) target = Inl InvalidTransition \<and>
      requestStatusTransition ord target = (Inl InvalidTransition, ord)) \<and>
   (legal_edge current t \<longleftrightarrow>
      (current, t) \<in> {(NEW, PREPARING), (NEW, REJECTED), (PREPARING, READY_FOR_PICKUP),
        (READY_FOR_PICKUP, COMPLETED)}) \<and>
   (calls (OrdersScreen_run w h (es @ [e]) OrdersScreen_init) =
      calls (OrdersScreen_run w h es OrdersScreen_init) \<or>
    (\<exists>shown t'.
       selectedOrder (OrdersScreen_run w h es OrdersScreen_init) = Some shown \<and>
       calls (OrdersScreen_run w h (es @ [e]) OrdersScreen_init) =
         calls (OrdersScreen_run w h es OrdersScreen_init) @ [(order_id shown, t')] \<and>
       requestStatusTransition shown t' = (Inr (), shown\<lparr>status := t'\<rparr>)))"
proof -
  have edges: "legal_edge current t \<longleftrightarrow>
      (current, t) \<in> {(NEW, PREPARING), (NEW, REJECTED), (PREPARING, READY_FOR_PICKUP),
        (READY_FOR_PICKUP, COMPLETED)}"
    by (cases current; cases t) simp_all
  have machine: "(legal_edge (status ord) target \<longrightarrow>
      transition (status ord) target = Inr target \<and>
      requestStatusTransition ord target = (Inr (), ord\<lparr>status := target\<rparr>)) \<and>
   (\<not> legal_edge (status ord) target \<longrightarrow>
      transition (status ord) target = Inl InvalidTransition \<and>
      requestStatusTransition ord target = (Inl InvalidTransition, ord))"
    by (simp add: transition_def requestStatusTransition_def)
  let ?s = "OrdersScreen_run w h es OrdersScreen_init"
  have ok: "screenOk ?s" by (rule screenOk_run[OF screenOk_init])
  have new: "timerForNew ?s" by (rule timerForNew_run[OF screenOk_init timerForNew_init])
  have "calls (OrdersScreen_step w h e ?s) = calls ?s \<or>
      (\<exists>shown t'. selectedOrder ?s = Some shown \<and>
         calls (OrdersScreen_step w h e ?s) = calls ?s @ [(order_id shown, t')] \<and>
         requestStatusTransition shown t' = (Inr (), shown\<lparr>status := t'\<rparr>))"
    using screen_step_legal[OF ok new, of w h e]
    by (auto simp: transition_def requestStatusTransition_def)
  then have view: "calls (OrdersScreen_run w h (es @ [e]) OrdersScreen_init) = calls ?s \<or>
      (\<exists>shown t'. selectedOrder ?s = Some shown \<and>
         calls (OrdersScreen_run w h (es @ [e]) OrdersScreen_init) =
           calls ?s @ [(order_id shown, t')] \<and>
         requestStatusTransition shown t' = (Inr (), shown\<lparr>status := t'\<rparr>))"
    by simp
  show ?thesis
    by (intro conjI edges view conjunct1[OF machine] conjunct2[OF machine])
qed

theorem transition_follows_legal_edges_witness:
  "legal_edge (status \<lparr>order_id = ''o1'', status = PREPARING\<rparr>) READY_FOR_PICKUP \<and>
   requestStatusTransition \<lparr>order_id = ''o1'', status = PREPARING\<rparr> READY_FOR_PICKUP =
     (Inr (), \<lparr>order_id = ''o1'', status = READY_FOR_PICKUP\<rparr>) \<and>
   \<not> legal_edge (status \<lparr>order_id = ''o1'', status = READY_FOR_PICKUP\<rparr>) PREPARING \<and>
   requestStatusTransition \<lparr>order_id = ''o1'', status = READY_FOR_PICKUP\<rparr> PREPARING =
     (Inl InvalidTransition, \<lparr>order_id = ''o1'', status = READY_FOR_PICKUP\<rparr>) \<and>
   selectedOrder (OrdersScreen_run 140 40 [OrderCardClick \<lparr>order_id = ''o1'', status = PREPARING\<rparr>]
     OrdersScreen_init) = Some \<lparr>order_id = ''o1'', status = PREPARING\<rparr> \<and>
   calls (OrdersScreen_run 140 40
     ([OrderCardClick \<lparr>order_id = ''o1'', status = PREPARING\<rparr>] @ [ReadyForPickupClick])
     OrdersScreen_init) = [(''o1'', READY_FOR_PICKUP)]"
proof -
  have view: "selectedOrder (OrdersScreen_run 140 40
        [OrderCardClick \<lparr>order_id = ''o1'', status = PREPARING\<rparr>] OrdersScreen_init) =
      Some \<lparr>order_id = ''o1'', status = PREPARING\<rparr>"
    "calls (OrdersScreen_run 140 40
       ([OrderCardClick \<lparr>order_id = ''o1'', status = PREPARING\<rparr>] @ [ReadyForPickupClick])
       OrdersScreen_init) = [(''o1'', READY_FOR_PICKUP)]"
    by (simp_all add: screen_defs model_defs)
  show ?thesis
    using transition_follows_legal_edges[where ord = "\<lparr>order_id = ''o1'', status = PREPARING\<rparr>"
        and target = READY_FOR_PICKUP and w = 140 and h = 40 and e = ReadyForPickupClick
        and es = "[OrderCardClick \<lparr>order_id = ''o1'', status = PREPARING\<rparr>]"]
      transition_follows_legal_edges[where ord = "\<lparr>order_id = ''o1'', status = READY_FOR_PICKUP\<rparr>"
        and target = PREPARING]
      view
    by simp
qed

end
